theory Spec2Isabelle
  imports Complex_Main "HOL-Library.Sublist"
begin

section \<open>Result ledger: \<^verbatim>\<open>src/core/batch-result-manager.ts\<close>\<close>

text \<open>
  Dates are milliseconds since the epoch (\<open>int\<close>); every \<^verbatim>\<open>new Date()\<close> of the source is
  the parameter \<open>now\<close> of the operation that makes it. JavaScript numbers that count things
  are \<open>int\<close>. The type parameter \<open>'r\<close> is \<^verbatim>\<open>ClassificationResult\<close>, which the ledger stores
  and never inspects.
\<close>

datatype Status = Pending | Success | Failed | Skipped

record ErrorInfo =
  err_message :: string
  err_code :: "string option"
  err_timestamp :: int

record 'r BatchResultItem =
  item_id :: string
  imagePath :: string
  result :: "'r option"
  error :: "ErrorInfo option"
  attempts :: int
  status :: Status
  timestamp :: int

record BatchSession =
  sessionId :: string
  startTime :: int
  endTime :: "int option"
  totalItems :: int
  completedItems :: int
  successfulItems :: int
  failedItems :: int
  skippedItems :: int

text \<open>
  The manager's private fields, and the two files it writes: \<open>outputFile\<close> is the JSONL
  file at \<open>outputPath\<close>, one element per line written, and \<open>sessionFile\<close> the checkpoint
  last written at \<open>sessionPath\<close>. \<open>outputStream\<close> tells whether the append stream has
  been opened (it is \<^verbatim>\<open>undefined\<close> until \<^verbatim>\<open>initialize\<close>).
\<close>

record 'r BatchResultManager =
  outputPath :: string
  sessionPath :: string
  outputStream :: bool
  session :: BatchSession
  results :: "string \<rightharpoonup> 'r BatchResultItem"
  outputFile :: "'r BatchResultItem list"
  sessionFile :: "BatchSession option"

text \<open>\<^verbatim>\<open>outputPath.replace(/\.jsonl?$/, '.session.json')\<close>\<close>

definition sessionPathOf :: "string \<Rightarrow> string" where
  "sessionPathOf p =
     (if suffix ''.jsonl'' p then take (length p - 6) p @ ''.session.json''
      else if suffix ''.json'' p then take (length p - 5) p @ ''.session.json''
      else p)"

text \<open>
  The constructor. \<open>sid\<close> is the optional \<^verbatim>\<open>sessionId\<close> argument (\<^verbatim>\<open>sessionId || generateSessionId()\<close>:
  an empty string is falsy), \<open>generated\<close> what \<^verbatim>\<open>generateSessionId()\<close> returns, \<open>existing\<close> the
  lines the file at \<open>outputPath\<close> already holds (the constructor does not read them).
\<close>

definition new_BatchResultManager ::
  "string \<Rightarrow> string option \<Rightarrow> string \<Rightarrow> int \<Rightarrow> 'r BatchResultItem list \<Rightarrow> 'r BatchResultManager" where
  "new_BatchResultManager path sid generated now existing =
     \<lparr> outputPath = path,
       sessionPath = sessionPathOf path,
       outputStream = False,
       session = \<lparr> sessionId = (case sid of Some s \<Rightarrow> (if s = [] then generated else s) | None \<Rightarrow> generated),
                   startTime = now, endTime = None, totalItems = 0, completedItems = 0,
                   successfulItems = 0, failedItems = 0, skippedItems = 0 \<rparr>,
       results = Map.empty,
       outputFile = existing,
       sessionFile = None \<rparr>"

definition saveSession :: "'r BatchResultManager \<Rightarrow> 'r BatchResultManager" where
  "saveSession m = m\<lparr> sessionFile := Some (session m) \<rparr>"

text \<open>The stream is opened with flag \<^verbatim>\<open>'a'\<close>: what the file holds stays, writes go after it.\<close>

definition initialize :: "int \<Rightarrow> 'r BatchResultManager \<Rightarrow> 'r BatchResultManager" where
  "initialize n m =
     saveSession (m\<lparr> session := (session m)\<lparr> totalItems := n \<rparr>, outputStream := True \<rparr>)"

definition writeToStream :: "'r BatchResultItem \<Rightarrow> 'r BatchResultManager \<Rightarrow> 'r BatchResultManager" where
  "writeToStream item m = (if outputStream m then m\<lparr> outputFile := outputFile m @ [item] \<rparr> else m)"

definition saveSuccess :: "string \<Rightarrow> string \<Rightarrow> 'r \<Rightarrow> int \<Rightarrow> 'r BatchResultManager \<Rightarrow> 'r BatchResultManager" where
  "saveSuccess i path r now m =
     (let item = \<lparr> item_id = i, imagePath = path, result = Some r, error = None,
                   attempts = 1, status = Success, timestamp = now \<rparr>;
          m1 = m\<lparr> results := (results m)(i \<mapsto> item) \<rparr>;
          m2 = m1\<lparr> session := (session m1)\<lparr> successfulItems := successfulItems (session m1) + 1 \<rparr> \<rparr>;
          m3 = m2\<lparr> session := (session m2)\<lparr> completedItems := completedItems (session m2) + 1 \<rparr> \<rparr>
      in saveSession (writeToStream item m3))"

text \<open>\<open>att\<close> is the optional parameter \<^verbatim>\<open>attempts: number = 1\<close>.\<close>

definition saveFailure ::
  "string \<Rightarrow> string \<Rightarrow> string \<times> string option \<Rightarrow> int option \<Rightarrow> int \<Rightarrow> 'r BatchResultManager \<Rightarrow> 'r BatchResultManager" where
  "saveFailure i path err att now m =
     (let item = \<lparr> item_id = i, imagePath = path, result = None,
                   error = Some \<lparr> err_message = fst err, err_code = snd err, err_timestamp = now \<rparr>,
                   attempts = (case att of None \<Rightarrow> 1 | Some a \<Rightarrow> a), status = Failed, timestamp = now \<rparr>;
          m1 = m\<lparr> results := (results m)(i \<mapsto> item) \<rparr>;
          m2 = m1\<lparr> session := (session m1)\<lparr> failedItems := failedItems (session m1) + 1 \<rparr> \<rparr>;
          m3 = m2\<lparr> session := (session m2)\<lparr> completedItems := completedItems (session m2) + 1 \<rparr> \<rparr>
      in saveSession (writeToStream item m3))"

definition saveSkipped :: "string \<Rightarrow> string \<Rightarrow> string \<Rightarrow> int \<Rightarrow> 'r BatchResultManager \<Rightarrow> 'r BatchResultManager" where
  "saveSkipped i path reason now m =
     (let item = \<lparr> item_id = i, imagePath = path, result = None,
                   error = Some \<lparr> err_message = reason, err_code = Some ''SKIPPED'', err_timestamp = now \<rparr>,
                   attempts = 0, status = Skipped, timestamp = now \<rparr>;
          m1 = m\<lparr> results := (results m)(i \<mapsto> item) \<rparr>;
          m2 = m1\<lparr> session := (session m1)\<lparr> skippedItems := skippedItems (session m1) + 1 \<rparr> \<rparr>;
          m3 = m2\<lparr> session := (session m2)\<lparr> completedItems := completedItems (session m2) + 1 \<rparr> \<rparr>
      in saveSession (writeToStream item m3))"




text \<open>A call of one of the three save operations, with its arguments and the time it is made.\<close>

datatype 'r SaveOp =
    SaveSuccess string string 'r int
  | SaveFailure string string "string \<times> string option" "int option" int
  | SaveSkipped string string string int

fun applyOp :: "'r SaveOp \<Rightarrow> 'r BatchResultManager \<Rightarrow> 'r BatchResultManager" where
  "applyOp (SaveSuccess i p r now) m = saveSuccess i p r now m"
| "applyOp (SaveFailure i p e a now) m = saveFailure i p e a now m"
| "applyOp (SaveSkipped i p reason now) m = saveSkipped i p reason now m"

definition applyOps :: "'r SaveOp list \<Rightarrow> 'r BatchResultManager \<Rightarrow> 'r BatchResultManager" where
  "applyOps ops m = foldl (\<lambda>m' op. applyOp op m') m ops"

definition counts_consistent :: "BatchSession \<Rightarrow> bool" where
  "counts_consistent s \<longleftrightarrow> successfulItems s + failedItems s + skippedItems s = completedItems s"

section \<open>Budget ledger: \<^verbatim>\<open>src/core/budget-manager.ts\<close>, \<^verbatim>\<open>src/core/cost-tracker.ts\<close>\<close>

text \<open>
  Amounts of money are JavaScript numbers in the source; here they are exact rationals, so
  sums and comparisons carry no rounding. An optional number is a \<open>rat option\<close>, and the
  source's test \<^verbatim>\<open>if (limit)\<close> is \<open>truthy\<close>: the limit is set and is not zero.
\<close>

datatype AIProvider = GOOGLE_GEMINI | ANTHROPIC_CLAUDE | OPENAI_GPT4V | AWS_BEDROCK

record CostRecord =
  cr_requestId :: string
  cr_provider :: AIProvider
  cr_timestamp :: int
  cr_inputTokens :: int
  cr_outputTokens :: int
  cr_totalTokens :: int
  cr_costUsd :: rat
  cr_latencyMs :: rat

record BudgetLimit =
  dailyLimit :: "rat option"
  weeklyLimit :: "rat option"
  monthlyLimit :: "rat option"
  perRequestLimit :: "rat option"
  providerLimits :: "(AIProvider \<rightharpoonup> rat) option"

datatype AlertType = Warning | Exceeded

datatype AlertLevel = LDaily | LWeekly | LMonthly | LPerRequest | LProvider

text \<open>The alert's \<^verbatim>\<open>message\<close>, a formatted text of the same numbers, is left out.\<close>

record BudgetAlert =
  alert_type :: AlertType
  alert_level :: AlertLevel
  alert_provider :: "AIProvider option"
  currentSpend :: rat
  alert_limit :: rat
  alert_percentage :: rat
  alert_timestamp :: int

record WindowStatus =
  spent :: rat
  window_limit :: "rat option"
  remaining :: "rat option"
  percentage :: "rat option"

record ProviderStatus =
  provider_spent :: rat
  provider_limit :: "rat option"
  provider_remaining :: "rat option"

record BudgetStatus =
  daily :: WindowStatus
  weekly :: WindowStatus
  monthly :: WindowStatus
  byProvider :: "AIProvider \<rightharpoonup> ProviderStatus"
  status_alerts :: "BudgetAlert list"

text \<open>
  \<open>costTracker\<close> is the record list of the \<^verbatim>\<open>CostTracker\<close> the manager refers to. The three
  window starts are computed once by the constructor from the local calendar; here the
  constructor receives them.
\<close>

record BudgetManager =
  limits :: BudgetLimit
  costTracker :: "CostRecord list"
  alerts :: "BudgetAlert list"
  warningThreshold :: rat
  startOfDay :: int
  startOfWeek :: int
  startOfMonth :: int

definition new_BudgetManager :: "BudgetLimit \<Rightarrow> CostRecord list \<Rightarrow> int \<Rightarrow> int \<Rightarrow> int \<Rightarrow> BudgetManager" where
  "new_BudgetManager ls tracker sod sow som =
     \<lparr> limits = ls, costTracker = tracker, alerts = [], warningThreshold = 80,
       startOfDay = sod, startOfWeek = sow, startOfMonth = som \<rparr>"

definition truthy :: "rat option \<Rightarrow> bool" where
  "truthy x = (case x of None \<Rightarrow> False | Some v \<Rightarrow> v \<noteq> 0)"

text \<open>\<^verbatim>\<open>this.limits.providerLimits?.[provider]\<close>\<close>

definition providerLimit :: "BudgetLimit \<Rightarrow> AIProvider \<Rightarrow> rat option" where
  "providerLimit ls p = (case providerLimits ls of None \<Rightarrow> None | Some pl \<Rightarrow> pl p)"


definition getRecordsByDateRange :: "int \<Rightarrow> int \<Rightarrow> CostRecord list \<Rightarrow> CostRecord list" where
  "getRecordsByDateRange startDate endDate rs =
     filter (\<lambda>r. cr_timestamp r \<ge> startDate \<and> cr_timestamp r \<le> endDate) rs"

text \<open>\<^verbatim>\<open>records.reduce((sum, r) => sum + r.costUsd, 0)\<close>\<close>

definition sumCost :: "CostRecord list \<Rightarrow> rat" where
  "sumCost rs = foldl (\<lambda>sum r. sum + cr_costUsd r) 0 rs"

text \<open>
  \<^verbatim>\<open>CostTracker.getStats().byProvider\<close>, reduced to the one field \<^verbatim>\<open>costUsd\<close> that the budget
  manager reads: the cost of each provider's records, added up in record order.
\<close>

definition statsByProvider :: "CostRecord list \<Rightarrow> (AIProvider \<rightharpoonup> rat)" where
  "statsByProvider rs =
     foldl (\<lambda>m r. case m (cr_provider r) of
                     Some c \<Rightarrow> m(cr_provider r \<mapsto> c + cr_costUsd r)
                   | None \<Rightarrow> m(cr_provider r \<mapsto> cr_costUsd r)) Map.empty rs"

definition windowStatus :: "rat \<Rightarrow> rat option \<Rightarrow> WindowStatus" where
  "windowStatus sp lmt =
     \<lparr> spent = sp, window_limit = lmt,
       remaining = (if truthy lmt then Some (the lmt - sp) else None),
       percentage = (if truthy lmt then Some ((sp / the lmt) * 100) else None) \<rparr>"

definition getStatus :: "int \<Rightarrow> BudgetManager \<Rightarrow> BudgetStatus" where
  "getStatus now bm =
     (let stats = statsByProvider (costTracker bm);
          dailySpent = sumCost (getRecordsByDateRange (startOfDay bm) now (costTracker bm));
          weeklySpent = sumCost (getRecordsByDateRange (startOfWeek bm) now (costTracker bm));
          monthlySpent = sumCost (getRecordsByDateRange (startOfMonth bm) now (costTracker bm))
      in \<lparr> daily = windowStatus dailySpent (dailyLimit (limits bm)),
           weekly = windowStatus weeklySpent (weeklyLimit (limits bm)),
           monthly = windowStatus monthlySpent (monthlyLimit (limits bm)),
           byProvider = (\<lambda>p. case stats p of None \<Rightarrow> None
              | Some c \<Rightarrow> Some \<lparr> provider_spent = c, provider_limit = providerLimit (limits bm) p,
                    provider_remaining = (if truthy (providerLimit (limits bm) p)
                                          then Some (the (providerLimit (limits bm) p) - c) else None) \<rparr>),
           status_alerts = alerts bm \<rparr>)"

definition addAlert :: "BudgetAlert \<Rightarrow> BudgetManager \<Rightarrow> BudgetManager" where
  "addAlert a bm = bm\<lparr> alerts := alerts bm @ [a] \<rparr>"

definition mkAlert :: "AlertType \<Rightarrow> AlertLevel \<Rightarrow> AIProvider option \<Rightarrow> rat \<Rightarrow> rat \<Rightarrow> int \<Rightarrow> BudgetAlert" where
  "mkAlert ty lv p cur lmt now =
     \<lparr> alert_type = ty, alert_level = lv, alert_provider = p, currentSpend = cur,
       alert_limit = lmt, alert_percentage = (cur / lmt) * 100, alert_timestamp = now \<rparr>"

definition warnWindow :: "AlertLevel \<Rightarrow> rat option \<Rightarrow> rat \<Rightarrow> rat \<Rightarrow> int \<Rightarrow> BudgetManager \<Rightarrow> BudgetManager" where
  "warnWindow lv lmt windowSpent estimatedCost now bm =
     (if truthy lmt then
        (let newSpend = windowSpent + estimatedCost;
             pct = (newSpend / the lmt) * 100
         in if pct \<ge> warningThreshold bm \<and> pct < 100
            then addAlert (mkAlert Warning lv None newSpend (the lmt) now) bm else bm)
      else bm)"

definition checkWarnings :: "BudgetStatus \<Rightarrow> rat \<Rightarrow> int \<Rightarrow> BudgetManager \<Rightarrow> BudgetManager" where
  "checkWarnings st estimatedCost now bm =
     (let bm1 = warnWindow LDaily (dailyLimit (limits bm)) (spent (daily st)) estimatedCost now bm;
          bm2 = warnWindow LWeekly (weeklyLimit (limits bm1)) (spent (weekly st)) estimatedCost now bm1
      in warnWindow LMonthly (monthlyLimit (limits bm2)) (spent (monthly st)) estimatedCost now bm2)"

text \<open>
  \<^verbatim>\<open>canAfford\<close> returns its verdict and the manager with the alerts it has added. The five
  checks are in the order of the source; each returns at its first breach.
\<close>

definition canAfford :: "AIProvider \<Rightarrow> rat \<Rightarrow> int \<Rightarrow> BudgetManager \<Rightarrow> bool \<times> BudgetManager" where
  "canAfford provider estimatedCost now bm =
     (let st = getStatus now bm;
          ls = limits bm;
          newDaily = spent (daily st) + estimatedCost;
          newWeekly = spent (weekly st) + estimatedCost;
          newMonthly = spent (monthly st) + estimatedCost;
          providerSpent = (case byProvider st provider of None \<Rightarrow> 0 | Some ps \<Rightarrow> provider_spent ps);
          newProviderSpent = providerSpent + estimatedCost
      in if truthy (perRequestLimit ls) \<and> estimatedCost > the (perRequestLimit ls) then
           (False, addAlert (mkAlert Exceeded LPerRequest None estimatedCost (the (perRequestLimit ls)) now) bm)
         else if truthy (dailyLimit ls) \<and> newDaily > the (dailyLimit ls) then
           (False, addAlert (mkAlert Exceeded LDaily None newDaily (the (dailyLimit ls)) now) bm)
         else if truthy (weeklyLimit ls) \<and> newWeekly > the (weeklyLimit ls) then
           (False, addAlert (mkAlert Exceeded LWeekly None newWeekly (the (weeklyLimit ls)) now) bm)
         else if truthy (monthlyLimit ls) \<and> newMonthly > the (monthlyLimit ls) then
           (False, addAlert (mkAlert Exceeded LMonthly None newMonthly (the (monthlyLimit ls)) now) bm)
         else if truthy (providerLimit ls provider) \<and> newProviderSpent > the (providerLimit ls provider) then
           (False, addAlert (mkAlert Exceeded LProvider (Some provider) newProviderSpent
                               (the (providerLimit ls provider)) now) bm)
         else (True, checkWarnings st estimatedCost now bm))"



definition noLimits :: BudgetLimit where
  "noLimits = \<lparr> dailyLimit = None, weeklyLimit = None, monthlyLimit = None,
                perRequestLimit = None, providerLimits = None \<rparr>"

text \<open>
  A configuration whose only ceiling is \<open>L\<close>, at the given level (for the provider level,
  the limit of provider \<open>p\<close>); the spend that \<open>canAfford\<close> compares with a ceiling of that
  level; and whether the window of that level has begun at time \<open>now\<close> (the provider's
  spend has no window: it counts all records).
\<close>

definition onlyCeiling :: "AlertLevel \<Rightarrow> AIProvider \<Rightarrow> rat \<Rightarrow> BudgetLimit" where
  "onlyCeiling lv p L =
     (case lv of
        LDaily \<Rightarrow> noLimits\<lparr> dailyLimit := Some L \<rparr>
      | LWeekly \<Rightarrow> noLimits\<lparr> weeklyLimit := Some L \<rparr>
      | LMonthly \<Rightarrow> noLimits\<lparr> monthlyLimit := Some L \<rparr>
      | LPerRequest \<Rightarrow> noLimits\<lparr> perRequestLimit := Some L \<rparr>
      | LProvider \<Rightarrow> noLimits\<lparr> providerLimits := Some (Map.empty(p \<mapsto> L)) \<rparr>)"




section \<open>Retry executor: \<^verbatim>\<open>RetryLogic\<close> in \<^verbatim>\<open>src/core/retry-logic.ts\<close>\<close>

text \<open>
  A thrown \<^verbatim>\<open>Error\<close> is its message and its optional \<^verbatim>\<open>code\<close>. A promise that resolves or
  rejects is a value of \<open>JsError + 'a\<close>. Characters are bytes, and \<open>toUpperCase\<close> maps
  the ASCII letters only.
\<close>

datatype JsError = Error (message: string) (code: "string option")

definition upperChar :: "char \<Rightarrow> char" where
  "upperChar c = (let n = (of_char c :: nat) in if 97 \<le> n \<and> n \<le> 122 then char_of (n - 32) else c)"

definition toUpperCase :: "string \<Rightarrow> string" where
  "toUpperCase s = map upperChar s"

fun includesStr :: "string \<Rightarrow> string \<Rightarrow> bool" where
  "includesStr [] p = (p = [])"
| "includesStr (c # cs) p = (prefix p (c # cs) \<or> includesStr cs p)"

record RetryOptions =
  opt_maxAttempts :: "nat option"
  opt_initialDelayMs :: "rat option"
  opt_maxDelayMs :: "rat option"
  opt_backoffMultiplier :: "rat option"
  opt_retryableErrors :: "string list option"

record RequiredRetryOptions =
  maxAttempts :: nat
  initialDelayMs :: rat
  maxDelayMs :: rat
  backoffMultiplier :: rat
  retryableErrors :: "string list"

definition defaultOptions :: RequiredRetryOptions where
  "defaultOptions = \<lparr> maxAttempts = 3, initialDelayMs = 1000, maxDelayMs = 30000, backoffMultiplier = 2,
       retryableErrors = [''RATE_LIMIT'', ''TIMEOUT'', ''NETWORK_ERROR'', ''ECONNRESET'', ''ETIMEDOUT''] \<rparr>"

text \<open>\<^verbatim>\<open>{ ...this.defaultOptions, ...options }\<close>: a key that is given replaces the default.\<close>

definition mergeOptions :: "RetryOptions \<Rightarrow> RequiredRetryOptions" where
  "mergeOptions options =
     \<lparr> maxAttempts = (case opt_maxAttempts options of Some v \<Rightarrow> v | None \<Rightarrow> maxAttempts defaultOptions),
       initialDelayMs = (case opt_initialDelayMs options of Some v \<Rightarrow> v | None \<Rightarrow> initialDelayMs defaultOptions),
       maxDelayMs = (case opt_maxDelayMs options of Some v \<Rightarrow> v | None \<Rightarrow> maxDelayMs defaultOptions),
       backoffMultiplier = (case opt_backoffMultiplier options of Some v \<Rightarrow> v
                            | None \<Rightarrow> backoffMultiplier defaultOptions),
       retryableErrors = (case opt_retryableErrors options of Some v \<Rightarrow> v
                          | None \<Rightarrow> retryableErrors defaultOptions) \<rparr>"

definition isRetryableError :: "JsError \<Rightarrow> string list \<Rightarrow> bool" where
  "isRetryableError err patterns =
     (let errorMessage = toUpperCase (message err);
          errorCode = map_option toUpperCase (code err)
      in list_ex (\<lambda>retryableError.
            (let pattern = toUpperCase retryableError
             in includesStr errorMessage pattern \<or> errorCode = Some pattern)) patterns)"

text \<open>The loop calls this with \<open>attempt \<ge> 1\<close> only, so the exponent \<open>attempt - 1\<close> is a natural number.\<close>

definition calculateDelay :: "nat \<Rightarrow> RequiredRetryOptions \<Rightarrow> rat" where
  "calculateDelay attempt opts =
     (let delay = initialDelayMs opts * backoffMultiplier opts ^ (attempt - 1)
      in min delay (maxDelayMs opts))"

text \<open>The three logger calls of \<^verbatim>\<open>execute\<close>, with the fields they log.\<close>

datatype LogEntry =
    RetrySucceeded nat
  | RequestFailed nat string bool
  | RequestFailedRetrying nat nat rat string

text \<open>
  What one call of \<^verbatim>\<open>execute\<close> does: the value it returns or the error it throws, the state
  it leaves, how often it invoked \<^verbatim>\<open>fn\<close>, the delays it slept in order, and what it logged.
\<close>

record ('a, 's) RetryRun =
  outcome :: "JsError + 'a"
  final :: 's
  calls :: nat
  sleeps :: "rat list"
  logs :: "LogEntry list"

text \<open>
  The \<^verbatim>\<open>for\<close> loop of \<^verbatim>\<open>execute\<close>, from \<open>attempt\<close> on. The function \<^verbatim>\<open>fn\<close> and \<^verbatim>\<open>sleep\<close> act on
  a state \<open>'s\<close> that stands for everything outside the executor.
\<close>

function retryLoop ::
  "(rat \<Rightarrow> 's \<Rightarrow> 's) \<Rightarrow> ('s \<Rightarrow> (JsError + 'a) \<times> 's) \<Rightarrow> RequiredRetryOptions \<Rightarrow> nat \<Rightarrow> JsError option \<Rightarrow> 's
     \<Rightarrow> ('a, 's) RetryRun" where
  "retryLoop sleep fn opts attempt lastError s =
     (if attempt \<le> maxAttempts opts then
        (case fst (fn s) of
           Inr res \<Rightarrow>
             \<lparr> outcome = Inr res, final = snd (fn s), calls = 1, sleeps = [],
               logs = (if attempt > 1 then [RetrySucceeded attempt] else []) \<rparr>
         | Inl err \<Rightarrow>
             (if \<not> isRetryableError err (retryableErrors opts) \<or> attempt \<ge> maxAttempts opts then
                \<lparr> outcome = Inl err, final = snd (fn s), calls = 1, sleeps = [],
                  logs = [RequestFailed attempt (message err) (isRetryableError err (retryableErrors opts))] \<rparr>
              else
                (let delay = calculateDelay attempt opts;
                     r = retryLoop sleep fn opts (attempt + 1) (Some err) (sleep delay (snd (fn s)))
                 in r\<lparr> calls := calls r + 1, sleeps := delay # sleeps r,
                       logs := RequestFailedRetrying attempt (maxAttempts opts) delay (message err) # logs r \<rparr>)))
      else
        \<lparr> outcome = Inl (case lastError of Some e \<Rightarrow> e | None \<Rightarrow> Error ''Max retry attempts exceeded'' None),
          final = s, calls = 0, sleeps = [], logs = [] \<rparr>)"
  by pat_completeness auto
termination
  by (relation "measure (\<lambda>(sleep, fn, opts, attempt, lastError, s). maxAttempts opts + 1 - attempt)") auto

declare retryLoop.simps [simp del]

definition RetryLogic_execute ::
  "(rat \<Rightarrow> 's \<Rightarrow> 's) \<Rightarrow> ('s \<Rightarrow> (JsError + 'a) \<times> 's) \<Rightarrow> RetryOptions \<Rightarrow> 's \<Rightarrow> ('a, 's) RetryRun" where
  "RetryLogic_execute sleep fn options s = retryLoop sleep fn (mergeOptions options) 1 None s"

text \<open>
  A function whose \<open>k\<close>-th invocation has the outcome \<open>f k\<close> (counting from 1); the state is
  the number of invocations made so far, and sleeping does not change it.
\<close>

definition nthCall :: "(nat \<Rightarrow> JsError + 'a) \<Rightarrow> nat \<Rightarrow> (JsError + 'a) \<times> nat" where
  "nthCall f k = (f (Suc k), Suc k)"

definition noEffect :: "rat \<Rightarrow> nat \<Rightarrow> nat" where
  "noEffect d k = k"

definition failsRetryably :: "RequiredRetryOptions \<Rightarrow> JsError + 'a \<Rightarrow> bool" where
  "failsRetryably opts r = (case r of Inl err \<Rightarrow> isRetryableError err (retryableErrors opts) | Inr v \<Rightarrow> False)"

section \<open>Circuit breaker: \<^verbatim>\<open>CircuitBreaker\<close> in \<^verbatim>\<open>src/core/retry-logic.ts\<close>\<close>

datatype CircuitState = Closed | Open | HalfOpen

record CircuitBreakerOptions =
  opt_failureThreshold :: "nat option"
  opt_successThreshold :: "nat option"
  opt_timeout :: "nat option"
  opt_resetTimeoutMs :: "nat option"

record RequiredBreakerOptions =
  failureThreshold :: nat
  successThreshold :: nat
  timeout :: nat
  resetTimeoutMs :: nat

record CircuitBreaker =
  state :: CircuitState
  failures :: nat
  successes :: nat
  lastFailureTime :: "int option"
  nextRetryTime :: "int option"
  options :: RequiredBreakerOptions

text \<open>\<^verbatim>\<open>options.x || d\<close>: a missing or zero value gives the default.\<close>

definition orDefault :: "nat option \<Rightarrow> nat \<Rightarrow> nat" where
  "orDefault x d = (case x of None \<Rightarrow> d | Some v \<Rightarrow> if v = 0 then d else v)"

definition new_CircuitBreaker :: "CircuitBreakerOptions \<Rightarrow> CircuitBreaker" where
  "new_CircuitBreaker opts =
     \<lparr> state = Closed, failures = 0, successes = 0, lastFailureTime = None, nextRetryTime = None,
       options = \<lparr> failureThreshold = orDefault (opt_failureThreshold opts) 5,
                   successThreshold = orDefault (opt_successThreshold opts) 2,
                   timeout = orDefault (opt_timeout opts) 60000,
                   resetTimeoutMs = orDefault (opt_resetTimeoutMs opts) 60000 \<rparr> \<rparr>"

definition noBreakerOptions :: CircuitBreakerOptions where
  "noBreakerOptions = \<lparr> opt_failureThreshold = None, opt_successThreshold = None,
                        opt_timeout = None, opt_resetTimeoutMs = None \<rparr>"

definition reset :: "CircuitBreaker \<Rightarrow> CircuitBreaker" where
  "reset cb = cb\<lparr> state := Closed, failures := 0, successes := 0, lastFailureTime := None, nextRetryTime := None \<rparr>"

definition trip :: "int \<Rightarrow> CircuitBreaker \<Rightarrow> CircuitBreaker" where
  "trip now cb = cb\<lparr> state := Open, nextRetryTime := Some (now + int (resetTimeoutMs (options cb))) \<rparr>"

definition onSuccess :: "CircuitBreaker \<Rightarrow> CircuitBreaker" where
  "onSuccess cb =
     (let cb1 = cb\<lparr> successes := successes cb + 1 \<rparr>
      in if state cb1 = HalfOpen then
           (if successes cb1 \<ge> successThreshold (options cb1) then reset cb1 else cb1)
         else cb1\<lparr> failures := 0 \<rparr>)"

definition onFailure :: "int \<Rightarrow> CircuitBreaker \<Rightarrow> CircuitBreaker" where
  "onFailure now cb =
     (let cb1 = cb\<lparr> failures := failures cb + 1, lastFailureTime := Some now, successes := 0 \<rparr>
      in if failures cb1 \<ge> failureThreshold (options cb1) then trip now cb1 else cb1)"

definition shouldAttemptReset :: "int \<Rightarrow> CircuitBreaker \<Rightarrow> bool" where
  "shouldAttemptReset now cb = (case nextRetryTime cb of None \<Rightarrow> False | Some t \<Rightarrow> now \<ge> t)"

text \<open>
  The message of the error thrown while the breaker is open; \<open>toISOString\<close> renders a time
  as \<^verbatim>\<open>Date.prototype.toISOString\<close> does (\<^verbatim>\<open>this.nextRetryTime ? ... : 'unknown'\<close>: a time
  of zero is falsy).
\<close>

definition breakerOpenError :: "(int \<Rightarrow> string) \<Rightarrow> CircuitBreaker \<Rightarrow> JsError" where
  "breakerOpenError toISOString cb =
     Error (''Circuit breaker is open. Next retry at '' @
              (case nextRetryTime cb of None \<Rightarrow> ''unknown''
               | Some t \<Rightarrow> if t = 0 then ''unknown'' else toISOString t)) None"

text \<open>
  \<^verbatim>\<open>CircuitBreaker.execute\<close>. The world \<open>'w\<close> is everything outside the breaker; \<open>clock\<close>
  reads \<^verbatim>\<open>Date.now()\<close> from it and \<open>fn\<close> is the wrapped function, which returns its outcome
  and the world it leaves. When the call is rejected \<open>fn\<close> is not applied: the world comes
  back as it was. One call runs from start to end, with no other call in between.
\<close>

definition CircuitBreaker_execute ::
  "(int \<Rightarrow> string) \<Rightarrow> ('w \<Rightarrow> int) \<Rightarrow> ('w \<Rightarrow> (JsError + 'a) \<times> 'w) \<Rightarrow> CircuitBreaker \<times> 'w
     \<Rightarrow> (JsError + 'a) \<times> (CircuitBreaker \<times> 'w)" where
  "CircuitBreaker_execute toISOString clock fn cw =
     (let cb = fst cw; w = snd cw in
      if state cb = Open \<and> \<not> shouldAttemptReset (clock w) cb then
        (Inl (breakerOpenError toISOString cb), (cb, w))
      else
        (let cb0 = (if state cb = Open then cb\<lparr> state := HalfOpen \<rparr> else cb)
         in case fst (fn w) of
              Inr res \<Rightarrow> (Inr res, (onSuccess cb0, snd (fn w)))
            | Inl err \<Rightarrow> (Inl err, (onFailure (clock (snd (fn w))) cb0, snd (fn w)))))"

text \<open>
  A sequence of \<^verbatim>\<open>execute\<close> calls on one breaker. Each call is a wrapped function and the
  world in which the call is made (time passes between calls); the results of the calls
  are listed in order, with the breaker after the last one.
\<close>

fun executeAll ::
  "(int \<Rightarrow> string) \<Rightarrow> ('w \<Rightarrow> int) \<Rightarrow> (('w \<Rightarrow> (JsError + 'a) \<times> 'w) \<times> 'w) list \<Rightarrow> CircuitBreaker
     \<Rightarrow> ((JsError + 'a) \<times> 'w) list \<times> CircuitBreaker" where
  "executeAll toISOString clock [] cb = ([], cb)"
| "executeAll toISOString clock (c # cs) cb =
     (let r = CircuitBreaker_execute toISOString clock (fst c) (cb, snd c);
          rest = executeAll toISOString clock cs (fst (snd r))
      in ((fst r, snd (snd r)) # fst rest, snd rest))"

definition callFails :: "(('w \<Rightarrow> (JsError + 'a) \<times> 'w) \<times> 'w) \<Rightarrow> bool" where
  "callFails c = isl (fst ((fst c) (snd c)))"

definition invoked :: "(('w \<Rightarrow> (JsError + 'a) \<times> 'w) \<times> 'w) \<Rightarrow> (JsError + 'a) \<times> 'w" where
  "invoked c = (fst c) (snd c)"

subsection \<open>\<^verbatim>\<open>CircuitBreakerManager\<close>\<close>

definition getBreaker ::
  "AIProvider \<Rightarrow> CircuitBreakerOptions option \<Rightarrow> (AIProvider \<rightharpoonup> CircuitBreaker)
     \<Rightarrow> CircuitBreaker \<times> (AIProvider \<rightharpoonup> CircuitBreaker)" where
  "getBreaker provider opts breakers =
     (case breakers provider of
        None \<Rightarrow> (let b = new_CircuitBreaker (case opts of None \<Rightarrow> noBreakerOptions | Some v \<Rightarrow> v)
                 in (b, breakers(provider \<mapsto> b)))
      | Some b \<Rightarrow> (b, breakers))"

definition CircuitBreakerManager_execute ::
  "(int \<Rightarrow> string) \<Rightarrow> ('w \<Rightarrow> int) \<Rightarrow> AIProvider \<Rightarrow> ('w \<Rightarrow> (JsError + 'a) \<times> 'w)
     \<Rightarrow> (AIProvider \<rightharpoonup> CircuitBreaker) \<times> 'w \<Rightarrow> (JsError + 'a) \<times> ((AIProvider \<rightharpoonup> CircuitBreaker) \<times> 'w)" where
  "CircuitBreakerManager_execute toISOString clock provider fn bw =
     (let gb = getBreaker provider None (fst bw);
          r = CircuitBreaker_execute toISOString clock fn (fst gb, snd bw)
      in (fst r, ((snd gb)(provider \<mapsto> fst (snd r)), snd (snd r))))"

section \<open>Batch orchestrator: \<^verbatim>\<open>batchCommand\<close> in \<^verbatim>\<open>src/cli/commands/batch.ts\<close>\<close>

text \<open>
  What the orchestrator calls and does not own: the provider's \<^verbatim>\<open>classify\<close> (given the
  image path of the item), the clock, the timer behind \<^verbatim>\<open>sleep\<close> and the rendering of dates.
\<close>

record ('r, 'w) Collaborators =
  classify :: "string \<Rightarrow> 'w \<Rightarrow> (JsError + 'r) \<times> 'w"
  clock :: "'w \<Rightarrow> int"
  sleepFor :: "rat \<Rightarrow> 'w \<Rightarrow> 'w"
  toISOString :: "int \<Rightarrow> string"

record ('r, 'w) BatchState =
  resultManager :: "'r BatchResultManager"
  circuitBreakerManager :: "AIProvider \<rightharpoonup> CircuitBreaker"
  world :: 'w


definition batchRetryOptions :: RetryOptions where
  "batchRetryOptions = \<lparr> opt_maxAttempts = Some 3, opt_initialDelayMs = Some 1000, opt_maxDelayMs = Some 10000,
                         opt_backoffMultiplier = None, opt_retryableErrors = None \<rparr>"

text \<open>
  The retried call of one task: \<^verbatim>\<open>retryLogic.execute(() => circuitBreakerManager.execute(provider,
  () => providerInstance.classify(...)), {...})\<close>.
\<close>

definition classifyWithRetry ::
  "('r, 'w) Collaborators \<Rightarrow> AIProvider \<Rightarrow> string \<Rightarrow> (AIProvider \<rightharpoonup> CircuitBreaker) \<times> 'w
     \<Rightarrow> ('r, (AIProvider \<rightharpoonup> CircuitBreaker) \<times> 'w) RetryRun" where
  "classifyWithRetry env provider path bw =
     RetryLogic_execute (\<lambda>d bw'. (fst bw', sleepFor env d (snd bw')))
       (CircuitBreakerManager_execute (toISOString env) (clock env) provider (classify env path))
       batchRetryOptions bw"

text \<open>
  The task queued for one item \<open>(id, imagePath)\<close>: the retried call, then \<^verbatim>\<open>saveSuccess\<close>, or
  \<^verbatim>\<open>saveFailure\<close> with the message and code of the error caught (no \<^verbatim>\<open>attempts\<close> argument).
\<close>

definition batchTask ::
  "('r, 'w) Collaborators \<Rightarrow> AIProvider \<Rightarrow> string \<times> string \<Rightarrow> ('r, 'w) BatchState \<Rightarrow> ('r, 'w) BatchState" where
  "batchTask env provider item st =
     (let run = classifyWithRetry env provider (snd item) (circuitBreakerManager st, world st);
          w1 = snd (final run);
          rm = (case outcome run of
                  Inr res \<Rightarrow> saveSuccess (fst item) (snd item) res (clock env w1) (resultManager st)
                | Inl err \<Rightarrow> saveFailure (fst item) (snd item) (message err, code err) None
                               (clock env w1) (resultManager st))
      in \<lparr> resultManager = rm, circuitBreakerManager = fst (final run), world = w1 \<rparr>)"


section \<open>Result log format: \<^verbatim>\<open>JSON.stringify(item) + '\n'\<close>\<close>

text \<open>
  JSON values and their rendering by \<^verbatim>\<open>JSON.stringify\<close> without indentation. Numbers are
  integers here; strings are quoted as ECMAScript's QuoteJSONString does, on bytes.
\<close>

datatype json = JNull | JBool bool | JNum int | JStr string | JArr "json list" | JObj "(string \<times> json) list"

definition newline :: char where
  "newline = CHR 0x0A"

definition hexDigit :: "nat \<Rightarrow> char" where
  "hexDigit k = ''0123456789abcdef'' ! k"

definition escapeChar :: "char \<Rightarrow> string" where
  "escapeChar c =
     (if c = CHR 0x08 then [CHR 0x5C, CHR ''b'']
      else if c = CHR 0x09 then [CHR 0x5C, CHR ''t'']
      else if c = CHR 0x0A then [CHR 0x5C, CHR ''n'']
      else if c = CHR 0x0C then [CHR 0x5C, CHR ''f'']
      else if c = CHR 0x0D then [CHR 0x5C, CHR ''r'']
      else if c = CHR 0x22 then [CHR 0x5C, CHR 0x22]
      else if c = CHR 0x5C then [CHR 0x5C, CHR 0x5C]
      else if (of_char c :: nat) < 32 then
        [CHR 0x5C, CHR ''u'', CHR ''0'', CHR ''0'', hexDigit ((of_char c :: nat) div 16), hexDigit ((of_char c :: nat) mod 16)]
      else [c])"

definition quoteJSONString :: "string \<Rightarrow> string" where
  "quoteJSONString s = [CHR 0x22] @ concat (map escapeChar s) @ [CHR 0x22]"

fun showNat :: "nat \<Rightarrow> string" where
  "showNat n = (if n < 10 then [''0123456789'' ! n] else showNat (n div 10) @ [''0123456789'' ! (n mod 10)])"

declare showNat.simps [simp del]

definition showInt :: "int \<Rightarrow> string" where
  "showInt i = (if i < 0 then CHR ''-'' # showNat (nat (- i)) else showNat (nat i))"

fun joinWith :: "string \<Rightarrow> string list \<Rightarrow> string" where
  "joinWith sep [] = []"
| "joinWith sep [x] = x"
| "joinWith sep (x # y # ys) = x @ sep @ joinWith sep (y # ys)"

fun stringify :: "json \<Rightarrow> string" where
  "stringify JNull = ''null''"
| "stringify (JBool b) = (if b then ''true'' else ''false'')"
| "stringify (JNum n) = showInt n"
| "stringify (JStr s) = quoteJSONString s"
| "stringify (JArr xs) = ''['' @ joinWith '','' (map stringify xs) @ '']''"
| "stringify (JObj kvs) =
     ''{'' @ joinWith '','' (map (\<lambda>kv. quoteJSONString (fst kv) @ '':'' @ stringify (snd kv)) kvs) @ ''}''"

text \<open>
  The object that \<^verbatim>\<open>JSON.stringify\<close> sees for a record: the keys of the item in the order
  of the object literal, a key whose value is \<^verbatim>\<open>undefined\<close> left out, every \<^verbatim>\<open>Date\<close> rendered by
  \<open>fmt\<close> (\<^verbatim>\<open>toISOString\<close>) and the classification result by \<open>resultJson\<close>.
\<close>

definition statusString :: "Status \<Rightarrow> string" where
  "statusString st = (case st of Pending \<Rightarrow> ''pending'' | Success \<Rightarrow> ''success''
                      | Failed \<Rightarrow> ''failed'' | Skipped \<Rightarrow> ''skipped'')"

definition errorJson :: "(int \<Rightarrow> string) \<Rightarrow> ErrorInfo \<Rightarrow> json" where
  "errorJson fmt e =
     JObj ([(''message'', JStr (err_message e))]
           @ (case err_code e of None \<Rightarrow> [] | Some c \<Rightarrow> [(''code'', JStr c)])
           @ [(''timestamp'', JStr (fmt (err_timestamp e)))])"

definition itemFields :: "(int \<Rightarrow> string) \<Rightarrow> ('r \<Rightarrow> json) \<Rightarrow> 'r BatchResultItem \<Rightarrow> (string \<times> json) list" where
  "itemFields fmt resultJson item =
     [(''id'', JStr (item_id item)), (''imagePath'', JStr (imagePath item))]
     @ (case result item of None \<Rightarrow> [] | Some r \<Rightarrow> [(''result'', resultJson r)])
     @ (case error item of None \<Rightarrow> [] | Some e \<Rightarrow> [(''error'', errorJson fmt e)])
     @ [(''attempts'', JNum (attempts item)), (''status'', JStr (statusString (status item))),
        (''timestamp'', JStr (fmt (timestamp item)))]"

definition itemLine :: "(int \<Rightarrow> string) \<Rightarrow> ('r \<Rightarrow> json) \<Rightarrow> 'r BatchResultItem \<Rightarrow> string" where
  "itemLine fmt resultJson item = stringify (JObj (itemFields fmt resultJson item)) @ [newline]"

text \<open>The two shapes of a record built by the save operations.\<close>

definition writtenBySave :: "'r BatchResultItem \<Rightarrow> bool" where
  "writtenBySave r \<longleftrightarrow>
     (status r = Success \<and> result r \<noteq> None \<and> error r = None)
     \<or> ((status r = Failed \<or> status r = Skipped) \<and> result r = None \<and> error r \<noteq> None)"

definition firstRecord :: "unit BatchResultItem" where
  "firstRecord = \<lparr> item_id = ''a'', imagePath = ''a.png'', result = Some (), error = None,
                    attempts = 1, status = Success, timestamp = 1 \<rparr>"

section \<open>Definitions used by the statements\<close>

text \<open>
  The log entries of a run over \<open>nthCall f\<close>: one \<^verbatim>\<open>Request failed, retrying\<close> for each
  attempt that is retried, and what the last attempt logs.
\<close>

definition retryingEntry :: "RequiredRetryOptions \<Rightarrow> (nat \<Rightarrow> JsError + 'a) \<Rightarrow> nat \<Rightarrow> LogEntry" where
  "retryingEntry opts f j =
     RequestFailedRetrying j (maxAttempts opts) (calculateDelay j opts)
       (case f j of Inl err \<Rightarrow> message err | Inr v \<Rightarrow> [])"

definition lastEntries :: "RequiredRetryOptions \<Rightarrow> (nat \<Rightarrow> JsError + 'a) \<Rightarrow> nat \<Rightarrow> LogEntry list" where
  "lastEntries opts f n =
     (case f n of
        Inr v \<Rightarrow> if n > 1 then [RetrySucceeded n] else []
      | Inl err \<Rightarrow> [RequestFailed n (message err) (isRetryableError err (retryableErrors opts))])"

text \<open>Sample functions, collaborators and states, for the closed instances below.\<close>

definition timeoutTwiceThen :: "nat \<Rightarrow> nat \<Rightarrow> JsError + nat" where
  "timeoutTwiceThen v j = (if j < 3 then Inl (Error ''Request timeout'' None) else Inr v)"

definition unauthorized :: "nat \<Rightarrow> (JsError + nat) \<times> nat" where
  "unauthorized k = (Inl (Error ''Unauthorized'' (Some ''AUTH'')), Suc k)"

text \<open>The record that \<open>batchTask\<close> writes for an item.\<close>

definition taskRecord :: "('r, 'w) Collaborators \<Rightarrow> AIProvider \<Rightarrow> string \<times> string \<Rightarrow> ('r, 'w) BatchState \<Rightarrow> 'r BatchResultItem" where
  "taskRecord env provider item st =
     (let run = classifyWithRetry env provider (snd item) (circuitBreakerManager st, world st);
          t = clock env (snd (final run))
      in case outcome run of
           Inr res \<Rightarrow> \<lparr> item_id = fst item, imagePath = snd item, result = Some res, error = None,
                        attempts = 1, status = Success, timestamp = t \<rparr>
         | Inl err \<Rightarrow> \<lparr> item_id = fst item, imagePath = snd item, result = None,
                        error = Some \<lparr> err_message = message err, err_code = code err, err_timestamp = t \<rparr>,
                        attempts = 1, status = Failed, timestamp = t \<rparr>)"



definition timeoutEnv :: "(nat, nat) Collaborators" where
  "timeoutEnv = \<lparr> classify = (\<lambda>path w. (Inl (Error ''Request timeout'' None), Suc w)), clock = (\<lambda>w. int w),
                   sleepFor = (\<lambda>d w. w), toISOString = (\<lambda>t. []) \<rparr>"

definition freshBatch :: "(nat, nat) BatchState" where
  "freshBatch = \<lparr> resultManager = initialize 1 (new_BatchResultManager ''out.jsonl'' None ''batch-0-x'' 0 []),
                  circuitBreakerManager = Map.empty, world = 0 \<rparr>"




definition failingCall :: "int \<Rightarrow> (JsError + nat) \<times> int" where
  "failingCall w = (Inl (Error ''Service unavailable'' None), w + 1)"

definition succeedingCall :: "int \<Rightarrow> (JsError + nat) \<times> int" where
  "succeedingCall w = (Inr 1, w + 1)"

definition sampleBreaker :: CircuitBreaker where
  "sampleBreaker = new_CircuitBreaker \<lparr> opt_failureThreshold = Some 2, opt_successThreshold = Some 2,
                                        opt_timeout = None, opt_resetTimeoutMs = Some 1000 \<rparr>"

section \<open>Session counters\<close>

lemma applyOp_session:
  "successfulItems (session (applyOp op m)) + failedItems (session (applyOp op m))
     + skippedItems (session (applyOp op m))
   = successfulItems (session m) + failedItems (session m) + skippedItems (session m) + 1
   \<and> completedItems (session (applyOp op m)) = completedItems (session m) + 1
   \<and> totalItems (session (applyOp op m)) = totalItems (session m)
   \<and> sessionFile (applyOp op m) = Some (session (applyOp op m))"
  by (cases op)
     (simp_all add: saveSuccess_def saveFailure_def saveSkipped_def saveSession_def
        writeToStream_def Let_def)

lemma applyOps_snoc: "applyOps (ops @ [op]) m = applyOp op (applyOps ops m)"
  by (simp add: applyOps_def)

lemma applyOps_session:
  "successfulItems (session (applyOps ops m)) + failedItems (session (applyOps ops m))
     + skippedItems (session (applyOps ops m))
   = successfulItems (session m) + failedItems (session m) + skippedItems (session m) + int (length ops)
   \<and> completedItems (session (applyOps ops m)) = completedItems (session m) + int (length ops)
   \<and> totalItems (session (applyOps ops m)) = totalItems (session m)"
proof (induction ops rule: rev_induct)
  case Nil
  show ?case by (simp add: applyOps_def)
next
  case (snoc op ops)
  show ?case
    using snoc.IH applyOp_session [of op "applyOps ops m"]
    by (simp add: applyOps_snoc)
qed

lemma initialize_session:
  "session (initialize n (new_BatchResultManager path sid g now ex))
   = \<lparr> sessionId = (case sid of Some s \<Rightarrow> (if s = [] then g else s) | None \<Rightarrow> g),
       startTime = now, endTime = None, totalItems = n, completedItems = 0,
       successfulItems = 0, failedItems = 0, skippedItems = 0 \<rparr>"
  by (simp add: initialize_def new_BatchResultManager_def saveSession_def)

text \<open>
  Claim C8, as amended. After \<^verbatim>\<open>initialize(n)\<close> and any sequence of \<^verbatim>\<open>saveSuccess\<close>,
  \<^verbatim>\<open>saveFailure\<close> and \<^verbatim>\<open>saveSkipped\<close> calls, the session record, which is also the checkpoint
  last written, satisfies successfulItems + failedItems + skippedItems = completedItems;
  completedItems is the number of calls made and totalItems stays \<open>n\<close>, so
  completedItems \<open>\<le>\<close> totalItems holds exactly when no more than \<open>n\<close> calls were made.
  The statement is for every sequence, hence for every prefix of one: after every operation.
\<close>

theorem C8_session_counts:
  fixes ops :: "'r SaveOp list" and n :: int and path :: string and sid :: "string option"
    and g :: string and now :: int and ex :: "'r BatchResultItem list"
  defines "m \<equiv> applyOps ops (initialize n (new_BatchResultManager path sid g now ex))"
  shows "counts_consistent (session m)
       \<and> sessionFile m = Some (session m)
       \<and> completedItems (session m) = int (length ops)
       \<and> totalItems (session m) = n
       \<and> ((completedItems (session m) \<le> totalItems (session m)) = (int (length ops) \<le> n))"
proof -
  let ?m0 = "initialize n (new_BatchResultManager path sid g now ex) :: 'r BatchResultManager"
  have s0: "successfulItems (session ?m0) = 0" "failedItems (session ?m0) = 0"
    "skippedItems (session ?m0) = 0" "completedItems (session ?m0) = 0"
    "totalItems (session ?m0) = n"
    by (simp_all add: initialize_session)
  have f0: "sessionFile ?m0 = Some (session ?m0)"
    by (simp add: initialize_def saveSession_def)
  have ckpt: "sessionFile m = Some (session m)"
  proof (cases ops rule: rev_cases)
    case Nil
    then show ?thesis using f0 by (simp add: m_def applyOps_def)
  next
    case (snoc ops' op)
    then show ?thesis
      using applyOp_session [of op "applyOps ops' ?m0"] by (simp add: m_def applyOps_snoc)
  qed
  show ?thesis
    using applyOps_session [of ops ?m0] s0 ckpt
    by (simp add: m_def counts_consistent_def)
qed

text \<open>
  Claim C8 as stated fails in its second half: a session initialised with one item that
  receives two save calls has completedItems = 2 > totalItems = 1 in its checkpoint.
\<close>

theorem C8_counterexample:
  "\<not> (\<forall>s. sessionFile
          (applyOps [SaveSuccess ''a'' ''a.png'' () 1, SaveFailure ''b'' ''b.png'' (''boom'', None) None 2]
             (initialize 1 (new_BatchResultManager ''out.jsonl'' None ''batch-0-x'' 0 []))) = Some s
        \<longrightarrow> completedItems s \<le> totalItems s)"
  by (simp add: applyOps_def saveSuccess_def saveFailure_def saveSession_def writeToStream_def
      initialize_def new_BatchResultManager_def Let_def)

section \<open>Budget ledger: verdicts\<close>


lemma canAfford_unconfigured:
  assumes "\<not> truthy (dailyLimit (limits bm))" "\<not> truthy (weeklyLimit (limits bm))"
    "\<not> truthy (monthlyLimit (limits bm))" "\<not> truthy (perRequestLimit (limits bm))"
    "\<not> truthy (providerLimit (limits bm) p)"
  shows "canAfford p c now bm = (True, bm)"
  using assms by (simp add: canAfford_def checkWarnings_def warnWindow_def Let_def)

lemma canAfford_false_needs_limit:
  assumes "\<not> fst (canAfford p c now bm)"
  shows "truthy (dailyLimit (limits bm)) \<or> truthy (weeklyLimit (limits bm))
     \<or> truthy (monthlyLimit (limits bm)) \<or> truthy (perRequestLimit (limits bm))
     \<or> truthy (providerLimit (limits bm) p)"
proof (rule ccontr)
  assume "\<not> ?thesis"
  then have "canAfford p c now bm = (True, bm)" by (intro canAfford_unconfigured) simp_all
  then show False using assms by simp
qed


















text \<open>
  Claim C10. With no daily, weekly, monthly or per-request limit and no limit for the
  provider asked about, \<open>canAfford\<close> returns true and leaves the manager as it was: no
  alert of any type is added. Conversely a false verdict needs a configured limit.
\<close>

theorem C10_unconfigured_budget:
  "(dailyLimit (limits bm) = None \<and> weeklyLimit (limits bm) = None \<and> monthlyLimit (limits bm) = None
      \<and> perRequestLimit (limits bm) = None \<and> providerLimit (limits bm) p = None
      \<longrightarrow> canAfford p c now bm = (True, bm))
   \<and> (\<not> fst (canAfford p c now bm)
      \<longrightarrow> dailyLimit (limits bm) \<noteq> None \<or> weeklyLimit (limits bm) \<noteq> None \<or> monthlyLimit (limits bm) \<noteq> None
          \<or> perRequestLimit (limits bm) \<noteq> None \<or> providerLimit (limits bm) p \<noteq> None)"
proof (intro conjI impI)
  assume "dailyLimit (limits bm) = None \<and> weeklyLimit (limits bm) = None \<and> monthlyLimit (limits bm) = None
      \<and> perRequestLimit (limits bm) = None \<and> providerLimit (limits bm) p = None"
  then show "canAfford p c now bm = (True, bm)"
    by (intro canAfford_unconfigured) (simp_all add: truthy_def)
next
  assume "\<not> fst (canAfford p c now bm)"
  from canAfford_false_needs_limit [OF this]
  show "dailyLimit (limits bm) \<noteq> None \<or> weeklyLimit (limits bm) \<noteq> None \<or> monthlyLimit (limits bm) \<noteq> None
          \<or> perRequestLimit (limits bm) \<noteq> None \<or> providerLimit (limits bm) p \<noteq> None"
    by (auto simp: truthy_def)
qed

text \<open>Instances of the theorem above: one for each of its two implications.\<close>

theorem C10_unconfigured_budget_witness:
  "canAfford ANTHROPIC_CLAUDE 5 1000 (new_BudgetManager noLimits [] 0 0 0)
     = (True, new_BudgetManager noLimits [] 0 0 0)
   \<and> \<not> fst (canAfford ANTHROPIC_CLAUDE 2 1000 (new_BudgetManager (onlyCeiling LDaily ANTHROPIC_CLAUDE 1) [] 0 0 0))
   \<and> dailyLimit (limits (new_BudgetManager (onlyCeiling LDaily ANTHROPIC_CLAUDE 1) [] 0 0 0)) \<noteq> None"
proof -
  have a: "canAfford ANTHROPIC_CLAUDE 5 1000 (new_BudgetManager noLimits [] 0 0 0)
     = (True, new_BudgetManager noLimits [] 0 0 0)"
    using C10_unconfigured_budget [of "new_BudgetManager noLimits [] 0 0 0" ANTHROPIC_CLAUDE 5 1000]
    by (simp add: new_BudgetManager_def noLimits_def providerLimit_def)
  have f: "\<not> fst (canAfford ANTHROPIC_CLAUDE 2 1000 (new_BudgetManager (onlyCeiling LDaily ANTHROPIC_CLAUDE 1) [] 0 0 0))"
    by (simp add: canAfford_def new_BudgetManager_def onlyCeiling_def noLimits_def truthy_def getStatus_def
        windowStatus_def getRecordsByDateRange_def sumCost_def providerLimit_def Let_def)
  show ?thesis
    using a f C10_unconfigured_budget [of "new_BudgetManager (onlyCeiling LDaily ANTHROPIC_CLAUDE 1) [] 0 0 0" ANTHROPIC_CLAUDE 2 1000]
    by (simp add: new_BudgetManager_def onlyCeiling_def noLimits_def)
qed

section \<open>Retry executor and batch task\<close>

lemma retryLoop_nthCall:
  assumes "n \<le> maxAttempts opts"
    and "\<forall>j. Suc k0 \<le> j \<and> j < n \<longrightarrow> failsRetryably opts (f j)"
    and "\<not> failsRetryably opts (f n) \<or> n = maxAttempts opts"
  shows "k0 \<le> k \<Longrightarrow> Suc k \<le> n \<Longrightarrow>
    retryLoop noEffect (nthCall f) opts (Suc k) le k
      = \<lparr> outcome = f n, final = n, calls = n - k,
          sleeps = map (\<lambda>j. calculateDelay j opts) [Suc k..<n],
          logs = map (retryingEntry opts f) [Suc k..<n] @ lastEntries opts f n \<rparr>"
proof (induction "n - Suc k" arbitrary: k le)
  case 0
  then have n: "n = Suc k" by simp
  show ?case
  proof (cases "f n")
    case (Inr v)
    then show ?thesis
      using assms(1) n
      by (subst retryLoop.simps) (simp add: nthCall_def lastEntries_def)
  next
    case (Inl err)
    then have "\<not> isRetryableError err (retryableErrors opts) \<or> n = maxAttempts opts"
      using assms(3) by (simp add: failsRetryably_def)
    then show ?thesis
      using assms(1) n Inl
      by (subst retryLoop.simps) (auto simp add: nthCall_def lastEntries_def)
  qed
next
  case (Suc d)
  then have lt: "Suc k < n" by simp
  then have "failsRetryably opts (f (Suc k))" using assms(2) Suc.prems by simp
  then obtain err where err: "f (Suc k) = Inl err" "isRetryableError err (retryableErrors opts)"
    by (cases "f (Suc k)") (simp_all add: failsRetryably_def)
  have IH: "retryLoop noEffect (nthCall f) opts (Suc (Suc k)) (Some err) (Suc k)
      = \<lparr> outcome = f n, final = n, calls = n - Suc k,
          sleeps = map (\<lambda>j. calculateDelay j opts) [Suc (Suc k)..<n],
          logs = map (retryingEntry opts f) [Suc (Suc k)..<n] @ lastEntries opts f n \<rparr>"
    using Suc.hyps(1) [of "Suc k" "Some err"] Suc.hyps(2) Suc.prems lt by simp
  have up: "[Suc k..<n] = Suc k # [Suc (Suc k)..<n]" using lt by (simp add: upt_conv_Cons)
  have c: "Suc (n - Suc k) = n - k" using lt by simp
  show ?case
    using lt assms(1) err IH
    by (subst retryLoop.simps) (simp add: nthCall_def noEffect_def Let_def up retryingEntry_def c)
qed

lemma retry_ex: "isRetryableError (Error ''Request timeout'' None) (retryableErrors defaultOptions)"
  by code_simp

lemma retry_ex2: "\<not> isRetryableError (Error ''Unauthorized'' (Some ''AUTH'')) (retryableErrors defaultOptions)"
  by code_simp

text \<open>
  Claim C5, as amended. Let \<open>M \<ge> 1\<close> be \<^verbatim>\<open>maxAttempts\<close> and let the first \<open>M - 1\<close> invocations
  fail with retryable errors. If invocation \<open>M\<close> succeeds, \<^verbatim>\<open>execute\<close> returns that value; if
  it fails with a retryable error too, \<^verbatim>\<open>execute\<close> throws that very error, as the function
  threw it. Either way the function was invoked exactly \<open>M\<close> times. The attempt number is
  not part of what is returned or thrown: it is in the log only (\<^verbatim>\<open>Retry succeeded\<close> with
  attempt \<open>M\<close> when \<open>M > 1\<close>, \<^verbatim>\<open>Request failed\<close> with attempt \<open>M\<close> on failure).
\<close>

theorem C5_retry_until_last_attempt:
  assumes "maxAttempts (mergeOptions ropts) = M" and "1 \<le> M"
    and "\<forall>j. 1 \<le> j \<and> j < M \<longrightarrow> failsRetryably (mergeOptions ropts) (f j)"
    and "f M = Inr v \<or> failsRetryably (mergeOptions ropts) (f M)"
  shows "outcome (RetryLogic_execute noEffect (nthCall f) ropts 0) = f M
       \<and> calls (RetryLogic_execute noEffect (nthCall f) ropts 0) = M
       \<and> logs (RetryLogic_execute noEffect (nthCall f) ropts 0)
           = map (retryingEntry (mergeOptions ropts) f) [1..<M] @ lastEntries (mergeOptions ropts) f M"
proof -
  have "retryLoop noEffect (nthCall f) (mergeOptions ropts) (Suc 0) None 0
      = \<lparr> outcome = f M, final = M, calls = M - 0,
          sleeps = map (\<lambda>j. calculateDelay j (mergeOptions ropts)) [Suc 0..<M],
          logs = map (retryingEntry (mergeOptions ropts) f) [Suc 0..<M] @ lastEntries (mergeOptions ropts) f M \<rparr>"
    by (rule retryLoop_nthCall [where ?k0.0 = 0]) (use assms in auto)
  then show ?thesis by (simp add: RetryLogic_execute_def)
qed

text \<open>An instance of the theorem above, with its hypotheses discharged.\<close>

theorem C5_retry_until_last_attempt_witness:
  "outcome (RetryLogic_execute noEffect (nthCall (timeoutTwiceThen 42)) batchRetryOptions 0) = Inr 42
   \<and> calls (RetryLogic_execute noEffect (nthCall (timeoutTwiceThen 42)) batchRetryOptions 0) = 3"
proof -
  have m: "maxAttempts (mergeOptions batchRetryOptions) = 3"
    by (simp add: mergeOptions_def batchRetryOptions_def)
  have r: "retryableErrors (mergeOptions batchRetryOptions) = retryableErrors defaultOptions"
    by (simp add: mergeOptions_def batchRetryOptions_def)
  have f: "\<forall>j. 1 \<le> j \<and> j < 3 \<longrightarrow> failsRetryably (mergeOptions batchRetryOptions) (timeoutTwiceThen 42 j)"
    using retry_ex by (simp add: failsRetryably_def timeoutTwiceThen_def r)
  have l: "timeoutTwiceThen 42 3 = Inr 42 \<or> failsRetryably (mergeOptions batchRetryOptions) (timeoutTwiceThen 42 3)"
    by (simp add: timeoutTwiceThen_def)
  have "1 \<le> (3::nat)" by simp
  moreover have "timeoutTwiceThen 42 3 = Inr 42" by (simp add: timeoutTwiceThen_def)
  ultimately show ?thesis
    using C5_retry_until_last_attempt [OF m _ f l] by simp
qed

text \<open>
  Claim C6, as amended. When \<^verbatim>\<open>maxAttempts\<close> is at least 1 and the first invocation fails
  with an error that is not retryable, \<^verbatim>\<open>execute\<close> invokes the function once, throws that
  error, and does not sleep.
\<close>

theorem C6_non_retryable_once:
  assumes "fn s = (Inl err, s1)"
    and "\<not> isRetryableError err (retryableErrors (mergeOptions ropts))"
    and "1 \<le> maxAttempts (mergeOptions ropts)"
  shows "RetryLogic_execute sleep fn ropts s
       = \<lparr> outcome = Inl err, final = s1, calls = 1, sleeps = [],
           logs = [RequestFailed 1 (message err) False] \<rparr>"
  unfolding RetryLogic_execute_def
  by (subst retryLoop.simps) (use assms in simp)

text \<open>An instance of the theorem above, with its hypotheses discharged.\<close>

theorem C6_non_retryable_once_witness:
  "RetryLogic_execute noEffect unauthorized batchRetryOptions 0
       = \<lparr> outcome = Inl (Error ''Unauthorized'' (Some ''AUTH'')), final = 1, calls = 1, sleeps = [],
           logs = [RequestFailed 1 ''Unauthorized'' False] \<rparr>"
proof -
  have a: "unauthorized 0 = (Inl (Error ''Unauthorized'' (Some ''AUTH'')), 1)"
    by (simp add: unauthorized_def)
  have b: "\<not> isRetryableError (Error ''Unauthorized'' (Some ''AUTH'')) (retryableErrors (mergeOptions batchRetryOptions))"
    using retry_ex2 by (simp add: mergeOptions_def batchRetryOptions_def)
  have c: "1 \<le> maxAttempts (mergeOptions batchRetryOptions)"
    by (simp add: mergeOptions_def batchRetryOptions_def)
  show ?thesis using C6_non_retryable_once [where fn = unauthorized and s = 0 and ropts = batchRetryOptions
        and sleep = noEffect, OF a b c] by simp
qed

text \<open>
  Claim C6 as stated, regardless of \<^verbatim>\<open>maxAttempts\<close>, fails at \<^verbatim>\<open>maxAttempts = 0\<close>: the loop body
  never runs, the function is not invoked, and the error thrown is the executor's own.
\<close>

theorem C6_counterexample:
  "calls (RetryLogic_execute noEffect unauthorized (batchRetryOptions\<lparr> opt_maxAttempts := Some 0 \<rparr>) 0) = 0
   \<and> outcome (RetryLogic_execute noEffect unauthorized (batchRetryOptions\<lparr> opt_maxAttempts := Some 0 \<rparr>) 0)
       = Inl (Error ''Max retry attempts exceeded'' None)"
  unfolding RetryLogic_execute_def
  by (subst retryLoop.simps, simp add: mergeOptions_def batchRetryOptions_def)+

text \<open>
  Claim C7. When attempts 1 to \<open>n\<close> fail with retryable errors and \<open>n\<close> is below
  \<^verbatim>\<open>maxAttempts\<close>, the executor sleeps after attempt \<open>n\<close>, and that delay, the \<open>n\<close>-th of the
  run, is min(maxDelayMs, initialDelayMs * backoffMultiplier^(n-1)); this is the value of
  \<^verbatim>\<open>calculateDelay\<close> at \<open>n\<close>.
\<close>

theorem C7_backoff_delay:
  assumes "1 \<le> n" and "n < maxAttempts (mergeOptions ropts)"
    and "\<forall>j. 1 \<le> j \<and> j \<le> n \<longrightarrow> failsRetryably (mergeOptions ropts) (f j)"
  shows "n \<le> length (sleeps (RetryLogic_execute noEffect (nthCall f) ropts 0))
       \<and> sleeps (RetryLogic_execute noEffect (nthCall f) ropts 0) ! (n - 1)
           = min (maxDelayMs (mergeOptions ropts))
                 (initialDelayMs (mergeOptions ropts) * backoffMultiplier (mergeOptions ropts) ^ (n - 1))
       \<and> calculateDelay n (mergeOptions ropts)
           = min (maxDelayMs (mergeOptions ropts))
                 (initialDelayMs (mergeOptions ropts) * backoffMultiplier (mergeOptions ropts) ^ (n - 1))"
proof -
  let ?o = "mergeOptions ropts"
  let ?stop = "\<lambda>j. 1 \<le> j \<and> (\<not> failsRetryably ?o (f j) \<or> j = maxAttempts ?o)"
  define N where "N = (LEAST j. ?stop j)"
  have ex: "?stop (maxAttempts ?o)" using assms(1,2) by simp
  have stopN: "?stop N" unfolding N_def by (rule LeastI [of ?stop, OF ex])
  have leN: "N \<le> maxAttempts ?o" unfolding N_def by (rule Least_le [of ?stop, OF ex])
  have before: "\<forall>j. Suc 0 \<le> j \<and> j < N \<longrightarrow> failsRetryably ?o (f j)"
  proof (intro allI impI)
    fix j assume j: "Suc 0 \<le> j \<and> j < N"
    then have "\<not> ?stop j" unfolding N_def using not_less_Least by blast
    then show "failsRetryably ?o (f j)" using j leN by auto
  qed
  have nN: "n < N"
  proof (rule ccontr)
    assume "\<not> n < N"
    then have "N \<le> n" by simp
    then show False using stopN assms(2,3) by auto
  qed
  have run: "retryLoop noEffect (nthCall f) ?o (Suc 0) None 0
      = \<lparr> outcome = f N, final = N, calls = N - 0,
          sleeps = map (\<lambda>j. calculateDelay j ?o) [Suc 0..<N],
          logs = map (retryingEntry ?o f) [Suc 0..<N] @ lastEntries ?o f N \<rparr>"
    by (rule retryLoop_nthCall [where ?k0.0 = 0, OF leN before]) (use stopN in auto)
  have sl: "sleeps (RetryLogic_execute noEffect (nthCall f) ropts 0) = map (\<lambda>j. calculateDelay j ?o) [Suc 0..<N]"
    using run by (simp add: RetryLogic_execute_def)
  have nth: "map (\<lambda>j. calculateDelay j ?o) [Suc 0..<N] ! (n - 1) = calculateDelay n ?o"
  proof -
    have "Suc 0 + (n - 1) < N" using nN assms(1) by simp
    then have "[Suc 0..<N] ! (n - 1) = Suc 0 + (n - 1)" by (rule nth_upt)
    then have "[Suc 0..<N] ! (n - 1) = n" using assms(1) by simp
    then show ?thesis using nN assms(1) by simp
  qed
  have cd: "calculateDelay n ?o = min (maxDelayMs ?o) (initialDelayMs ?o * backoffMultiplier ?o ^ (n - 1))"
    by (simp add: calculateDelay_def Let_def min.commute)
  show ?thesis using sl nth cd nN by simp
qed

text \<open>An instance of the theorem above, with its hypotheses discharged.\<close>

theorem C7_backoff_delay_witness:
  "sleeps (RetryLogic_execute noEffect (nthCall (timeoutTwiceThen 42)) batchRetryOptions 0) ! 1 = 2000"
proof -
  have m: "2 < maxAttempts (mergeOptions batchRetryOptions)"
    by (simp add: mergeOptions_def batchRetryOptions_def)
  have r: "retryableErrors (mergeOptions batchRetryOptions) = retryableErrors defaultOptions"
    by (simp add: mergeOptions_def batchRetryOptions_def)
  have f: "\<forall>j. 1 \<le> j \<and> j \<le> 2 \<longrightarrow> failsRetryably (mergeOptions batchRetryOptions) (timeoutTwiceThen 42 j)"
    using retry_ex by (simp add: failsRetryably_def timeoutTwiceThen_def r)
  have "(1::nat) \<le> 2" by simp
  from C7_backoff_delay [OF this m f]
  show ?thesis by (simp add: mergeOptions_def batchRetryOptions_def defaultOptions_def)
qed

lemma saveSuccess_file:
  "outputStream m \<Longrightarrow> outputFile (saveSuccess i p r now m) = outputFile m @
     [\<lparr> item_id = i, imagePath = p, result = Some r, error = None, attempts = 1, status = Success, timestamp = now \<rparr>]
   \<and> outputStream (saveSuccess i p r now m)"
  by (simp add: saveSuccess_def writeToStream_def saveSession_def Let_def)

lemma saveFailure_file:
  "outputStream m \<Longrightarrow> outputFile (saveFailure i p e None now m) = outputFile m @
     [\<lparr> item_id = i, imagePath = p, result = None,
        error = Some \<lparr> err_message = fst e, err_code = snd e, err_timestamp = now \<rparr>,
        attempts = 1, status = Failed, timestamp = now \<rparr>]
   \<and> outputStream (saveFailure i p e None now m)"
  by (simp add: saveFailure_def writeToStream_def saveSession_def Let_def)

lemma batchTask_file:
  assumes "outputStream (resultManager st)"
  shows "outputFile (resultManager (batchTask env provider item st))
           = outputFile (resultManager st) @ [taskRecord env provider item st]
       \<and> outputStream (resultManager (batchTask env provider item st))"
proof (cases "outcome (classifyWithRetry env provider (snd item) (circuitBreakerManager st, world st))")
  case (Inl err)
  then show ?thesis
    using saveFailure_file [OF assms] by (simp add: batchTask_def taskRecord_def Let_def)
next
  case (Inr res)
  then show ?thesis
    using saveSuccess_file [OF assms] by (simp add: batchTask_def taskRecord_def Let_def)
qed

lemma taskRecord_fields:
  "item_id (taskRecord env provider item st) = fst item
   \<and> imagePath (taskRecord env provider item st) = snd item
   \<and> attempts (taskRecord env provider item st) = 1
   \<and> status (taskRecord env provider item st)
       = (if isl (outcome (classifyWithRetry env provider (snd item) (circuitBreakerManager st, world st)))
          then Failed else Success)"
  by (cases "outcome (classifyWithRetry env provider (snd item) (circuitBreakerManager st, world st))")
     (simp_all add: taskRecord_def Let_def)






lemma freshBatch_open: "outputStream (resultManager freshBatch)" "outputFile (resultManager freshBatch) = []"
  "circuitBreakerManager freshBatch = Map.empty" "world freshBatch = 0"
  by (simp_all add: freshBatch_def initialize_def new_BatchResultManager_def saveSession_def)



lemma timeout_retryable:
  "isRetryableError (Error ''Request timeout'' None) (retryableErrors (mergeOptions batchRetryOptions))"
  using retry_ex by (simp add: mergeOptions_def batchRetryOptions_def)

lemma timeoutEnv_run:
  "outcome (classifyWithRetry timeoutEnv OPENAI_GPT4V ''a.png'' (Map.empty, 0)) = Inl (Error ''Request timeout'' None)
   \<and> calls (classifyWithRetry timeoutEnv OPENAI_GPT4V ''a.png'' (Map.empty, 0)) = 3
   \<and> snd (final (classifyWithRetry timeoutEnv OPENAI_GPT4V ''a.png'' (Map.empty, 0))) = 3"
proof -
  have m: "maxAttempts (mergeOptions batchRetryOptions) = 3"
    by (simp add: mergeOptions_def batchRetryOptions_def)
  show ?thesis
    unfolding classifyWithRetry_def RetryLogic_execute_def
    by (subst retryLoop.simps,
        simp add: m timeout_retryable timeoutEnv_def CircuitBreakerManager_execute_def getBreaker_def
          CircuitBreaker_execute_def onFailure_def new_CircuitBreaker_def orDefault_def
          noBreakerOptions_def trip_def Let_def)+
qed

text \<open>
  Claim C5 as stated fails where it speaks of the attempt count: a classification that
  times out on all three attempts of a batch task ends with the error exactly as thrown
  (message and code, no count), and the record written for the item says attempts = 1.
\<close>

theorem C5_counterexample:
  "outcome (classifyWithRetry timeoutEnv OPENAI_GPT4V ''a.png'' (Map.empty, 0)) = Inl (Error ''Request timeout'' None)
   \<and> calls (classifyWithRetry timeoutEnv OPENAI_GPT4V ''a.png'' (Map.empty, 0)) = 3
   \<and> map attempts (outputFile (resultManager (batchTask timeoutEnv OPENAI_GPT4V (''a'', ''a.png'') freshBatch))) = [1]"
  using timeoutEnv_run batchTask_file [OF freshBatch_open(1), of timeoutEnv OPENAI_GPT4V "(''a'', ''a.png'')"]
    taskRecord_fields [of timeoutEnv OPENAI_GPT4V "(''a'', ''a.png'')" freshBatch]
  by (simp add: freshBatch_open)



section \<open>Circuit breaker: transitions\<close>

lemma executeAll_append:
  "executeAll fmt clk (xs @ ys) cb
     = (fst (executeAll fmt clk xs cb) @ fst (executeAll fmt clk ys (snd (executeAll fmt clk xs cb))),
        snd (executeAll fmt clk ys (snd (executeAll fmt clk xs cb))))"
  by (induction xs arbitrary: cb) (simp_all add: Let_def)

lemma execute_rejected:
  "state cb = Open \<Longrightarrow> \<not> shouldAttemptReset (clk w) cb \<Longrightarrow>
   CircuitBreaker_execute fmt clk fn (cb, w) = (Inl (breakerOpenError fmt cb), (cb, w))"
  by (simp add: CircuitBreaker_execute_def)

lemma execute_probe:
  "state cb = Open \<Longrightarrow> shouldAttemptReset (clk w) cb \<Longrightarrow>
   CircuitBreaker_execute fmt clk fn (cb, w) = CircuitBreaker_execute fmt clk fn (cb\<lparr> state := HalfOpen \<rparr>, w)"
  by (simp add: CircuitBreaker_execute_def)

lemma execute_failure:
  "state cb \<noteq> Open \<Longrightarrow> callFails (fn, w) \<Longrightarrow>
   CircuitBreaker_execute fmt clk fn (cb, w)
     = (fst (fn w), (onFailure (clk (snd (fn w))) cb, snd (fn w)))"
  by (cases "fst (fn w)") (simp_all add: CircuitBreaker_execute_def callFails_def)

lemma execute_success:
  "state cb \<noteq> Open \<Longrightarrow> \<not> callFails (fn, w) \<Longrightarrow>
   CircuitBreaker_execute fmt clk fn (cb, w) = (fst (fn w), (onSuccess cb, snd (fn w)))"
  by (cases "fst (fn w)") (simp_all add: CircuitBreaker_execute_def callFails_def)

lemma onFailure_below:
  "failures cb + 1 < failureThreshold (options cb) \<Longrightarrow>
   onFailure t cb = cb\<lparr> failures := failures cb + 1, lastFailureTime := Some t, successes := 0 \<rparr>"
  by (simp add: onFailure_def Let_def)

lemma onFailure_trips:
  "failureThreshold (options cb) \<le> failures cb + 1 \<Longrightarrow>
   onFailure t cb = cb\<lparr> failures := failures cb + 1, lastFailureTime := Some t, successes := 0,
                        state := Open, nextRetryTime := Some (t + int (resetTimeoutMs (options cb))) \<rparr>"
  by (simp add: onFailure_def trip_def Let_def)

lemma onSuccess_probing:
  "state cb = HalfOpen \<Longrightarrow> successes cb + 1 < successThreshold (options cb) \<Longrightarrow>
   onSuccess cb = cb\<lparr> successes := successes cb + 1 \<rparr>"
  by (simp add: onSuccess_def Let_def)

lemma onSuccess_closes:
  "state cb = HalfOpen \<Longrightarrow> successThreshold (options cb) \<le> successes cb + 1 \<Longrightarrow>
   state (onSuccess cb) = Closed \<and> failures (onSuccess cb) = 0 \<and> successes (onSuccess cb) = 0
   \<and> nextRetryTime (onSuccess cb) = None \<and> options (onSuccess cb) = options cb"
  by (simp add: onSuccess_def reset_def Let_def)

text \<open>Failures below the threshold keep a closed breaker closed; every call is invoked.\<close>

lemma failures_below_threshold:
  "state cb = Closed \<Longrightarrow> \<forall>c\<in>set cs. callFails c \<Longrightarrow>
   failures cb + length cs < failureThreshold (options cb) \<Longrightarrow>
   fst (executeAll fmt clk cs cb) = map invoked cs
   \<and> state (snd (executeAll fmt clk cs cb)) = Closed
   \<and> failures (snd (executeAll fmt clk cs cb)) = failures cb + length cs
   \<and> options (snd (executeAll fmt clk cs cb)) = options cb"
proof (induction cs arbitrary: cb)
  case Nil
  then show ?case by simp
next
  case (Cons c cs)
  have f: "callFails (fst c, snd c)" using Cons.prems(2) by simp
  have st: "state cb \<noteq> Open" using Cons.prems(1) by simp
  have b: "failures cb + 1 < failureThreshold (options cb)" using Cons.prems(3) by simp
  let ?cb1 = "onFailure (clk (snd (fst c (snd c)))) cb"
  have ex: "CircuitBreaker_execute fmt clk (fst c) (cb, snd c) = (fst (fst c (snd c)), (?cb1, snd (fst c (snd c))))"
    using execute_failure [OF st f] by simp
  have cb1: "state ?cb1 = Closed" "failures ?cb1 = failures cb + 1" "options ?cb1 = options cb"
    using Cons.prems(1) by (simp_all add: onFailure_below [OF b])
  have "failures ?cb1 + length cs < failureThreshold (options ?cb1)"
    using Cons.prems(3) cb1 by simp
  from Cons.IH [OF cb1(1) _ this] Cons.prems(2)
  show ?case using ex cb1 by (simp add: Let_def invoked_def)
qed

text \<open>The failure that reaches the threshold opens the breaker.\<close>

lemma failures_reach_threshold:
  assumes "state cb = Closed" and "\<forall>c\<in>set cs. callFails c" and "cs \<noteq> []"
    and "failures cb + length cs = failureThreshold (options cb)"
  shows "fst (executeAll fmt clk cs cb) = map invoked cs
   \<and> state (snd (executeAll fmt clk cs cb)) = Open
   \<and> nextRetryTime (snd (executeAll fmt clk cs cb))
        = Some (clk (snd (invoked (last cs))) + int (resetTimeoutMs (options cb)))
   \<and> successes (snd (executeAll fmt clk cs cb)) = 0
   \<and> failures (snd (executeAll fmt clk cs cb)) = failureThreshold (options cb)
   \<and> options (snd (executeAll fmt clk cs cb)) = options cb"
proof -
  obtain xs c where cs: "cs = xs @ [c]" using assms(3) by (cases cs rule: rev_cases) auto
  let ?cb1 = "snd (executeAll fmt clk xs cb)"
  have xs: "fst (executeAll fmt clk xs cb) = map invoked xs" "state ?cb1 = Closed"
    "failures ?cb1 = failures cb + length xs" "options ?cb1 = options cb"
    using failures_below_threshold [of cb xs fmt clk] assms cs by simp_all
  have f: "callFails (fst c, snd c)" using assms(2) cs by simp
  have st: "state ?cb1 \<noteq> Open" using xs by simp
  have t: "failureThreshold (options ?cb1) \<le> failures ?cb1 + 1" using xs assms(4) cs by simp
  let ?cb2 = "onFailure (clk (snd (fst c (snd c)))) ?cb1"
  have ex: "CircuitBreaker_execute fmt clk (fst c) (?cb1, snd c) = (fst (fst c (snd c)), (?cb2, snd (fst c (snd c))))"
    using execute_failure [OF st f] by simp
  have cb2: "state ?cb2 = Open" "successes ?cb2 = 0" "failures ?cb2 = failures ?cb1 + 1"
    "options ?cb2 = options cb"
    "nextRetryTime ?cb2 = Some (clk (snd (fst c (snd c))) + int (resetTimeoutMs (options cb)))"
    using xs by (simp_all add: onFailure_trips [OF t])
  show ?thesis
    using xs ex cb2 assms(4) cs by (simp add: executeAll_append Let_def invoked_def)
qed

text \<open>Successes below the threshold keep a half-open breaker half-open; every call is invoked.\<close>

lemma successes_below_threshold:
  "state cb = HalfOpen \<Longrightarrow> \<forall>c\<in>set cs. \<not> callFails c \<Longrightarrow>
   successes cb + length cs < successThreshold (options cb) \<Longrightarrow>
   fst (executeAll fmt clk cs cb) = map invoked cs
   \<and> snd (executeAll fmt clk cs cb) = cb\<lparr> successes := successes cb + length cs \<rparr>"
proof (induction cs arbitrary: cb)
  case Nil
  then show ?case by simp
next
  case (Cons c cs)
  have f: "\<not> callFails (fst c, snd c)" using Cons.prems(2) by simp
  have st: "state cb \<noteq> Open" using Cons.prems(1) by simp
  have b: "successes cb + 1 < successThreshold (options cb)" using Cons.prems(3) by simp
  let ?cb1 = "cb\<lparr> successes := successes cb + 1 \<rparr>"
  have ex: "CircuitBreaker_execute fmt clk (fst c) (cb, snd c) = (fst (fst c (snd c)), (?cb1, snd (fst c (snd c))))"
    using execute_success [OF st f] onSuccess_probing [OF Cons.prems(1) b] by simp
  have "state ?cb1 = HalfOpen" using Cons.prems(1) by simp
  moreover have "successes ?cb1 + length cs < successThreshold (options ?cb1)" using Cons.prems(3) by simp
  ultimately have "fst (executeAll fmt clk cs ?cb1) = map invoked cs
     \<and> snd (executeAll fmt clk cs ?cb1) = ?cb1\<lparr> successes := successes ?cb1 + length cs \<rparr>"
    using Cons.IH [of ?cb1] Cons.prems(2) by simp
  then show ?case using ex by (simp add: Let_def invoked_def)
qed

lemma probe_run:
  "state cb = Open \<Longrightarrow> cs \<noteq> [] \<Longrightarrow> shouldAttemptReset (clk (snd (hd cs))) cb \<Longrightarrow>
   executeAll fmt clk cs cb = executeAll fmt clk cs (cb\<lparr> state := HalfOpen \<rparr>)"
  by (cases cs) (simp_all add: execute_probe Let_def)

text \<open>Enough successes close a half-open breaker.\<close>

lemma successes_reach_threshold:
  assumes "state cb = HalfOpen" and "\<forall>c\<in>set cs. \<not> callFails c" and "cs \<noteq> []"
    and "successes cb + length cs = successThreshold (options cb)"
  shows "fst (executeAll fmt clk cs cb) = map invoked cs
       \<and> state (snd (executeAll fmt clk cs cb)) = Closed
       \<and> failures (snd (executeAll fmt clk cs cb)) = 0"
proof -
  obtain xs c where cs: "cs = xs @ [c]" using assms(3) by (cases cs rule: rev_cases) auto
  let ?cb1 = "cb\<lparr> successes := successes cb + length xs \<rparr>"
  have xs: "fst (executeAll fmt clk xs cb) = map invoked xs" "snd (executeAll fmt clk xs cb) = ?cb1"
    using successes_below_threshold [of cb xs fmt clk] assms cs by simp_all
  have f: "\<not> callFails (fst c, snd c)" using assms(2) cs by simp
  have st: "state ?cb1 \<noteq> Open" "state ?cb1 = HalfOpen" using assms(1) by simp_all
  have t: "successThreshold (options ?cb1) \<le> successes ?cb1 + 1" using assms(4) cs by simp
  have ex: "CircuitBreaker_execute fmt clk (fst c) (?cb1, snd c) = (fst (fst c (snd c)), (onSuccess ?cb1, snd (fst c (snd c))))"
    using execute_success [OF st(1) f] by simp
  show ?thesis
    using xs ex onSuccess_closes [OF st(2) t] cs by (simp add: executeAll_append Let_def invoked_def)
qed

text \<open>A failure of a half-open breaker whose failure count is at the threshold opens it again.\<close>

lemma probe_failure:
  assumes "state cb = HalfOpen" and "failureThreshold (options cb) \<le> failures cb + 1" and "callFails c"
  shows "fst (executeAll fmt clk [c] cb) = [invoked c]
       \<and> state (snd (executeAll fmt clk [c] cb)) = Open
       \<and> nextRetryTime (snd (executeAll fmt clk [c] cb))
            = Some (clk (snd (invoked c)) + int (resetTimeoutMs (options cb)))"
proof -
  have f: "callFails (fst c, snd c)" using assms(3) by simp
  have st: "state cb \<noteq> Open" using assms(1) by simp
  show ?thesis
    using execute_failure [OF st f] by (simp add: onFailure_trips [OF assms(2)] Let_def invoked_def)
qed

text \<open>
  Claim C3. Let \<open>F\<close> and \<open>H\<close> be the failure and success thresholds of a closed breaker. Failed
  executions that bring its count of consecutive failures to \<open>F\<close> are all invoked, leave it
  closed until the last one, and that one opens it. While the reset timeout has not
  elapsed, \<^verbatim>\<open>execute\<close> is rejected with the breaker-open error and the wrapped function is not
  applied: breaker and world are unchanged. Once it has elapsed, calls are invoked again:
  \<open>H\<close> consecutive successes close the breaker, which is half-open after each of the first
  \<open>H - 1\<close>, and a failure, as the probe or after fewer than \<open>H\<close> successes, opens it again.
\<close>

theorem C3_circuit_breaker:
  fixes cb :: CircuitBreaker
    and fails succs :: "(('w \<Rightarrow> (JsError + 'a) \<times> 'w) \<times> 'w) list"
    and fmt :: "int \<Rightarrow> string" and clk :: "'w \<Rightarrow> int"
  defines "opened \<equiv> snd (executeAll fmt clk fails cb)"
    and "T \<equiv> clk (snd (invoked (last fails))) + int (resetTimeoutMs (options cb))"
  assumes closed: "state cb = Closed"
    and fails: "fails \<noteq> []" "\<forall>c\<in>set fails. callFails c"
      "failures cb + length fails = failureThreshold (options cb)"
    and succs: "succs \<noteq> []" "\<forall>c\<in>set succs. \<not> callFails c"
      "length succs = successThreshold (options cb)"
    and elapsed: "T \<le> clk (snd (hd succs))"
  shows "fst (executeAll fmt clk fails cb) = map invoked fails
       \<and> (\<forall>k<length fails. state (snd (executeAll fmt clk (take k fails) cb)) = Closed)
       \<and> state opened = Open
       \<and> (\<forall>fn w. clk w < T \<longrightarrow>
             CircuitBreaker_execute fmt clk fn (opened, w) = (Inl (breakerOpenError fmt opened), (opened, w)))
       \<and> fst (executeAll fmt clk succs opened) = map invoked succs
       \<and> (\<forall>k. 0 < k \<and> k < length succs \<longrightarrow>
             state (snd (executeAll fmt clk (take k succs) opened)) = HalfOpen)
       \<and> state (snd (executeAll fmt clk succs opened)) = Closed
       \<and> (\<forall>k c. k < length succs \<and> callFails c \<and> (k = 0 \<longrightarrow> T \<le> clk (snd c)) \<longrightarrow>
             fst (executeAll fmt clk (take k succs @ [c]) opened) = map invoked (take k succs @ [c])
             \<and> state (snd (executeAll fmt clk (take k succs @ [c]) opened)) = Open)"
proof -
  have op: "fst (executeAll fmt clk fails cb) = map invoked fails" "state opened = Open"
    "nextRetryTime opened = Some T" "successes opened = 0"
    "failures opened = failureThreshold (options cb)" "options opened = options cb"
    using failures_reach_threshold [OF closed fails(2) fails(1) fails(3), of fmt clk]
    by (simp_all add: opened_def T_def)
  let ?hb = "opened\<lparr> state := HalfOpen \<rparr>"
  have hb: "state ?hb = HalfOpen" "successes ?hb = 0" "options ?hb = options cb"
    "failures ?hb = failureThreshold (options cb)"
    using op by simp_all
  have probe: "executeAll fmt clk cs opened = executeAll fmt clk cs ?hb"
    if "cs \<noteq> []" "T \<le> clk (snd (hd cs))" for cs :: "(('w \<Rightarrow> (JsError + 'a) \<times> 'w) \<times> 'w) list"
    using that op by (intro probe_run) (simp_all add: shouldAttemptReset_def)
  have part1: "\<forall>k<length fails. state (snd (executeAll fmt clk (take k fails) cb)) = Closed"
  proof (intro allI impI)
    fix k assume k: "k < length fails"
    have "\<forall>c\<in>set (take k fails). callFails c" using fails(2) by (meson in_set_takeD)
    moreover have "failures cb + length (take k fails) < failureThreshold (options cb)"
      using k fails(3) by simp
    ultimately show "state (snd (executeAll fmt clk (take k fails) cb)) = Closed"
      using failures_below_threshold [OF closed, of "take k fails" fmt clk] by simp
  qed
  have part2: "\<forall>fn w. clk w < T \<longrightarrow>
             CircuitBreaker_execute fmt clk fn (opened, w) = (Inl (breakerOpenError fmt opened), (opened, w))"
    using op by (simp add: execute_rejected shouldAttemptReset_def)
  have prefix: "fst (executeAll fmt clk (take k succs) opened) = map invoked (take k succs)
        \<and> snd (executeAll fmt clk (take k succs) opened) = ?hb\<lparr> successes := k \<rparr>"
    if k: "0 < k" "k < length succs" for k
  proof -
    have ne: "take k succs \<noteq> []" using k succs(1) by simp
    have hd: "hd (take k succs) = hd succs" using k by simp
    have a: "\<forall>c\<in>set (take k succs). \<not> callFails c" using succs(2) by (meson in_set_takeD)
    have b: "successes ?hb + length (take k succs) < successThreshold (options ?hb)"
      using k succs(3) hb by simp
    show ?thesis
      using successes_below_threshold [OF hb(1) a b, of fmt clk] probe [OF ne] elapsed hd k hb
      by simp
  qed
  have part3: "\<forall>k. 0 < k \<and> k < length succs \<longrightarrow>
             state (snd (executeAll fmt clk (take k succs) opened)) = HalfOpen"
    using prefix by simp
  have part4: "fst (executeAll fmt clk succs opened) = map invoked succs
       \<and> state (snd (executeAll fmt clk succs opened)) = Closed"
  proof -
    have "successes ?hb + length succs = successThreshold (options ?hb)" using succs(3) hb by simp
    from successes_reach_threshold [OF hb(1) succs(2) succs(1) this, of fmt clk]
    show ?thesis using probe [OF succs(1) elapsed] by simp
  qed
  have part5: "\<forall>k c. k < length succs \<and> callFails c \<and> (k = 0 \<longrightarrow> T \<le> clk (snd c)) \<longrightarrow>
             fst (executeAll fmt clk (take k succs @ [c]) opened) = map invoked (take k succs @ [c])
             \<and> state (snd (executeAll fmt clk (take k succs @ [c]) opened)) = Open"
  proof (intro allI impI)
    fix k and c :: "('w \<Rightarrow> (JsError + 'a) \<times> 'w) \<times> 'w"
    assume h: "k < length succs \<and> callFails c \<and> (k = 0 \<longrightarrow> T \<le> clk (snd c))"
    show "fst (executeAll fmt clk (take k succs @ [c]) opened) = map invoked (take k succs @ [c])
             \<and> state (snd (executeAll fmt clk (take k succs @ [c]) opened)) = Open"
    proof (cases "k = 0")
      case True
      have "executeAll fmt clk [c] opened = executeAll fmt clk [c] ?hb"
        using probe [of "[c]"] h True by simp
      moreover have "failureThreshold (options ?hb) \<le> failures ?hb + 1" using hb by simp
      ultimately show ?thesis
        using probe_failure [OF hb(1), of c fmt clk] h True by simp
    next
      case False
      then have k: "0 < k" "k < length succs" using h by simp_all
      let ?cb1 = "?hb\<lparr> successes := k \<rparr>"
      have st: "state ?cb1 = HalfOpen" by simp
      have th: "failureThreshold (options ?cb1) \<le> failures ?cb1 + 1" using hb by simp
      show ?thesis
        using prefix [OF k] probe_failure [OF st th, of c fmt clk] h
        by (simp add: executeAll_append)
    qed
  qed
  show ?thesis using op(1,2) part1 part2 part3 part4 part5 by blast
qed

text \<open>An instance of the theorem above, with its hypotheses discharged.\<close>

theorem C3_circuit_breaker_witness:
  "state (snd (executeAll (\<lambda>t. []) (\<lambda>w. w) [(failingCall, 0), (failingCall, 10)] sampleBreaker)) = Open
   \<and> state (snd (executeAll (\<lambda>t. []) (\<lambda>w. w) [(succeedingCall, 2000), (succeedingCall, 2001)]
               (snd (executeAll (\<lambda>t. []) (\<lambda>w. w) [(failingCall, 0), (failingCall, 10)] sampleBreaker))))
       = Closed"
proof -
  let ?fails = "[(failingCall, 0), (failingCall, 10)]"
  let ?succs = "[(succeedingCall, 2000), (succeedingCall, 2001)]"
  have sb: "state sampleBreaker = Closed" "failures sampleBreaker = 0"
    "failureThreshold (options sampleBreaker) = 2" "successThreshold (options sampleBreaker) = 2"
    "resetTimeoutMs (options sampleBreaker) = 1000"
    by (simp_all add: sampleBreaker_def new_CircuitBreaker_def orDefault_def)
  have h1: "?fails \<noteq> []" and h2: "\<forall>c\<in>set ?fails. callFails c"
    and h3: "failures sampleBreaker + length ?fails = failureThreshold (options sampleBreaker)"
    and h4: "?succs \<noteq> []" and h5: "\<forall>c\<in>set ?succs. \<not> callFails c"
    and h6: "length ?succs = successThreshold (options sampleBreaker)"
    and h7: "(\<lambda>w. w) (snd (invoked (last ?fails))) + int (resetTimeoutMs (options sampleBreaker))
               \<le> (\<lambda>w. w) (snd (hd ?succs))"
    by (simp_all add: sb callFails_def invoked_def failingCall_def succeedingCall_def)
  from C3_circuit_breaker [OF sb(1) h1 h2 h3 h4 h5 h6 h7, of "\<lambda>t. []"]
  show ?thesis by blast
qed

section \<open>Result log: one record per line\<close>

lemma newline_escapeChar: "newline \<notin> set (escapeChar c)"
proof -
  have h: "newline \<notin> set ''0123456789abcdef''" by (simp add: newline_def)
  have "hexDigit k \<in> set ''0123456789abcdef''" if "k < 16" for k
    unfolding hexDigit_def by (rule nth_mem) (use that in simp)
  then have d: "hexDigit k \<noteq> newline" if "k < 16" for k using h that by metis
  have lt: "(of_char c :: nat) div 16 < 16" if "(of_char c :: nat) < 32"
    using that by simp
  show ?thesis
    using d [of "(of_char c :: nat) mod 16"] d [OF lt]
    by (auto simp add: escapeChar_def newline_def)
qed

lemma newline_quote: "newline \<notin> set (quoteJSONString s)"
  using newline_escapeChar by (auto simp add: quoteJSONString_def newline_def)

lemma newline_showNat: "newline \<notin> set (showNat n)"
proof (induction n rule: showNat.induct)
  case (1 n)
  have h: "newline \<notin> set ''0123456789''" by (simp add: newline_def)
  have "''0123456789'' ! k \<in> set ''0123456789''" if "k < 10" for k
    by (rule nth_mem) (use that in simp)
  then have d: "''0123456789'' ! k \<noteq> newline" if "k < 10" for k using h that by metis
  show ?case
  proof (cases "n < 10")
    case True
    then show ?thesis using d [of n] by (subst showNat.simps) simp
  next
    case False
    then show ?thesis using 1 d [of "n mod 10"] by (subst showNat.simps) simp
  qed
qed

lemma newline_showInt: "newline \<notin> set (showInt i)"
  using newline_showNat by (simp add: showInt_def newline_def)

lemma newline_joinWith:
  "newline \<notin> set sep \<Longrightarrow> \<forall>x\<in>set xs. newline \<notin> set x \<Longrightarrow> newline \<notin> set (joinWith sep xs)"
  by (induction sep xs rule: joinWith.induct) auto

lemma newline_stringify: "newline \<notin> set (stringify j)"
proof (induction j rule: stringify.induct)
  case 1
  show ?case by (simp add: newline_def)
next
  case (2 b)
  show ?case by (simp add: newline_def)
next
  case (3 n)
  show ?case by (simp add: newline_showInt)
next
  case (4 s)
  show ?case by (simp add: newline_quote)
next
  case (5 xs)
  have sep: "newline \<notin> set '',''" by (simp add: newline_def)
  have "\<forall>x\<in>set (map stringify xs). newline \<notin> set x" using 5 by simp
  from newline_joinWith [OF sep this] show ?case by (simp add: newline_def)
next
  case (6 kvs)
  have sep: "newline \<notin> set '',''" by (simp add: newline_def)
  have "newline \<notin> set (quoteJSONString (fst kv) @ '':'' @ stringify (snd kv))" if "kv \<in> set kvs" for kv
    using 6 [OF that] newline_quote [of "fst kv"] by (simp add: newline_def)
  then have "\<forall>x\<in>set (map (\<lambda>kv. quoteJSONString (fst kv) @ '':'' @ stringify (snd kv)) kvs). newline \<notin> set x"
    by auto
  from newline_joinWith [OF sep this] show ?case by (simp add: newline_def)
qed

lemma applyOp_appends:
  "outputStream m \<Longrightarrow>
   \<exists>r. outputFile (applyOp op m) = outputFile m @ [r] \<and> writtenBySave r"
  "outputStream m \<Longrightarrow> outputStream (applyOp op m)"
  by (cases op; simp add: saveSuccess_def saveFailure_def saveSkipped_def saveSession_def
        writeToStream_def writtenBySave_def Let_def)+

lemma applyOps_appends:
  "outputStream m \<Longrightarrow>
   outputStream (applyOps ops m)
   \<and> (\<exists>rs. outputFile (applyOps ops m) = outputFile m @ rs \<and> length rs = length ops
          \<and> (\<forall>r\<in>set rs. writtenBySave r))"
proof (induction ops rule: rev_induct)
  case Nil
  then show ?case by (simp add: applyOps_def)
next
  case (snoc op ops)
  then obtain rs where rs: "outputStream (applyOps ops m)"
    "outputFile (applyOps ops m) = outputFile m @ rs" "length rs = length ops" "\<forall>r\<in>set rs. writtenBySave r"
    by blast
  obtain r where r: "outputFile (applyOp op (applyOps ops m)) = outputFile (applyOps ops m) @ [r]" "writtenBySave r"
    using applyOp_appends(1) [OF rs(1)] by blast
  have "outputFile (applyOps (ops @ [op]) m) = outputFile m @ (rs @ [r])"
    using r rs by (simp add: applyOps_snoc)
  moreover have "length (rs @ [r]) = length (ops @ [op])" using rs by simp
  moreover have "\<forall>x\<in>set (rs @ [r]). writtenBySave x" using rs r by simp
  ultimately show ?case using applyOp_appends(2) [OF rs(1)] by (auto simp add: applyOps_snoc simp del: append_assoc)
qed

lemma itemFields_keys:
  assumes "writtenBySave r"
  shows "map fst (itemFields fmt rj r)
           = [''id'', ''imagePath'', (if status r = Success then ''result'' else ''error''),
              ''attempts'', ''status'', ''timestamp'']
       \<and> map_of (itemFields fmt rj r) ''status'' = Some (JStr (statusString (status r)))
       \<and> statusString (status r) \<in> {''success'', ''failed'', ''skipped''}"
  using assms by (auto simp add: writtenBySave_def itemFields_def statusString_def)

text \<open>
  Claim C9, as amended. Every record that a save operation appends to the log of an
  initialised manager is written as one JSON object followed by a line feed; the object's
  text contains no line feed, so the record is one line. Its keys are id, imagePath,
  result (for a success) or error (otherwise), attempts, status and timestamp, and the
  status is success, failed or skipped. Each save call appends exactly one record.
\<close>

theorem C9_log_record_format:
  fixes ops :: "'r SaveOp list" and ex :: "'r BatchResultItem list"
  assumes "r \<in> set (drop (length ex)
              (outputFile (applyOps ops (initialize n (new_BatchResultManager path sid g now ex)))))"
  shows "itemLine fmt rj r = stringify (JObj (itemFields fmt rj r)) @ [newline]
       \<and> newline \<notin> set (stringify (JObj (itemFields fmt rj r)))
       \<and> map fst (itemFields fmt rj r)
           = [''id'', ''imagePath'', (if status r = Success then ''result'' else ''error''),
              ''attempts'', ''status'', ''timestamp'']
       \<and> map_of (itemFields fmt rj r) ''status'' = Some (JStr (statusString (status r)))
       \<and> statusString (status r) \<in> {''success'', ''failed'', ''skipped''}
       \<and> length (outputFile (applyOps ops (initialize n (new_BatchResultManager path sid g now ex))))
           = length ex + length ops"
proof -
  let ?m0 = "initialize n (new_BatchResultManager path sid g now ex)"
  have m0: "outputStream ?m0" "outputFile ?m0 = ex"
    by (simp_all add: initialize_def new_BatchResultManager_def saveSession_def)
  obtain rs where rs: "outputFile (applyOps ops ?m0) = ex @ rs" "length rs = length ops"
    "\<forall>x\<in>set rs. writtenBySave x"
    using applyOps_appends [OF m0(1), of ops] m0(2) by auto
  have "r \<in> set rs" using assms rs(1) by simp
  then have w: "writtenBySave r" using rs(3) by simp
  show ?thesis
    using itemFields_keys [OF w, of fmt rj] newline_stringify [of "JObj (itemFields fmt rj r)"] rs
    by (simp add: itemLine_def)
qed

lemma firstRecord_written:
  "outputFile (applyOps [SaveSuccess ''a'' ''a.png'' () 1]
      (initialize 1 (new_BatchResultManager ''out.jsonl'' None ''batch-0-x'' 0 []))) = [firstRecord]"
  by (simp add: applyOps_def saveSuccess_def saveSession_def writeToStream_def initialize_def
      new_BatchResultManager_def firstRecord_def Let_def)

text \<open>An instance of the theorem above, with its hypotheses discharged.\<close>

theorem C9_log_record_format_witness:
  "map fst (itemFields (\<lambda>t. []) (\<lambda>u. JNull) firstRecord)
     = [''id'', ''imagePath'', ''result'', ''attempts'', ''status'', ''timestamp'']
   \<and> newline \<notin> set (stringify (JObj (itemFields (\<lambda>t. []) (\<lambda>u. JNull) firstRecord)))"
proof -
  have "firstRecord \<in> set (drop (length ([] :: unit BatchResultItem list))
          (outputFile (applyOps [SaveSuccess ''a'' ''a.png'' () 1]
             (initialize 1 (new_BatchResultManager ''out.jsonl'' None ''batch-0-x'' 0 [])))))"
    by (simp add: firstRecord_written)
  from C9_log_record_format [OF this, of "\<lambda>t. []" "\<lambda>u. JNull"]
  show ?thesis by (simp add: firstRecord_def)
qed

text \<open>
  Claim C9 as stated names a field source; the record written for a success has no such
  key: the path of the image is under imagePath.
\<close>

theorem C9_counterexample:
  "last (outputFile (applyOps [SaveSuccess ''a'' ''a.png'' () 1]
      (initialize 1 (new_BatchResultManager ''out.jsonl'' None ''batch-0-x'' 0 [])))) = firstRecord
   \<and> ''source'' \<notin> set (map fst (itemFields (\<lambda>t. []) (\<lambda>u. JNull) firstRecord))
   \<and> ''imagePath'' \<in> set (map fst (itemFields (\<lambda>t. []) (\<lambda>u. JNull) firstRecord))"
  by (simp add: firstRecord_written) (simp add: itemFields_def firstRecord_def)

end
